theory Spec2Isabelle
  imports Complex_Main "HOL-Library.Log_Nat" "HOL-Library.Word" "HOL-Library.Signed_Division"
begin

section \<open>IEEE 754 binary64 values, as Go's float64\<close>

text \<open>
  Every quantity type of package \<^verbatim>\<open>unit\<close> (\<^verbatim>\<open>Length\<close>, \<^verbatim>\<open>Area\<close>, \<^verbatim>\<open>Speed\<close>,
  \<^verbatim>\<open>Temperature\<close>) is declared as \<^verbatim>\<open>float64\<close>. A float64 is modelled as NaN, a signed
  infinity, or a finite value given by its sign bit (\<open>True\<close> is negative) and its magnitude, an
  exact rational. Negative zero is \<open>Fin True 0\<close>. The arithmetic operations compute the exact
  rational result and round it to nearest, ties to even, at 53 bits of precision with the
  exponent range of binary64.
\<close>

datatype float64 = NaN | Inf bool | Fin bool rat

text \<open>\<open>ilog b q\<close> is the integer \<open>k\<close> with \<open>b ^ k \<le> q < b ^ (k + 1)\<close>, for \<open>q > 0\<close>.\<close>

definition ilog :: "nat \<Rightarrow> rat \<Rightarrow> int" where
  "ilog b q = (if 1 \<le> q then int (floorlog b (nat \<lfloor>q\<rfloor>)) - 1
               else - int (floorlog b (nat (\<lceil>1 / q\<rceil> - 1))))"

text \<open>Rounding a rational to the nearest integer, ties to the even one.\<close>

definition rhe :: "rat \<Rightarrow> int" where
  "rhe x = (let f = \<lfloor>x\<rfloor>; r = x - of_int f in
            if r < 1 / 2 then f else if 1 / 2 < r then f + 1
            else if even f then f else f + 1)"

text \<open>
  The exponent of the unit in the last place of the binade of \<open>q\<close>: 52 below the exponent of
  \<open>q\<close>, and never below the subnormal exponent \<open>- 1074\<close>.
\<close>

definition expo :: "rat \<Rightarrow> int" where
  "expo q = max (ilog 2 q - 52) (- 1074)"

definition round_mag :: "rat \<Rightarrow> rat" where
  "round_mag q = (if q = 0 then 0 else of_int (rhe (q / 2 powi expo q)) * 2 powi expo q)"

text \<open>Rounding of a magnitude with a sign; a result of \<open>2 ^ 1024\<close> or more overflows.\<close>

definition fl :: "bool \<Rightarrow> rat \<Rightarrow> float64" where
  "fl s q = (let r = round_mag q in if 2 ^ 1024 \<le> r then Inf s else Fin s r)"

text \<open>The values of the datatype that are float64 values.\<close>

fun valid :: "float64 \<Rightarrow> bool" where
  "valid NaN = True"
| "valid (Inf s) = True"
| "valid (Fin s q) = (0 \<le> q \<and> round_mag q = q \<and> q < 2 ^ 1024)"

fun is_finite :: "float64 \<Rightarrow> bool" where
  "is_finite (Fin s q) = True"
| "is_finite _ = False"

fun signbit :: "float64 \<Rightarrow> bool" where
  "signbit (Fin s q) = s"
| "signbit (Inf s) = s"
| "signbit NaN = False"

definition sval :: "bool \<Rightarrow> rat \<Rightarrow> rat" where
  "sval s q = (if s then - q else q)"

text \<open>The exact value of a finite float64 (0 for the others, which have none).\<close>

fun fval :: "float64 \<Rightarrow> rat" where
  "fval (Fin s q) = sval s q"
| "fval _ = 0"

text \<open>Conversion of an exact (untyped) Go constant to float64; a zero constant is positive.\<close>

definition f64_const :: "rat \<Rightarrow> float64" where
  "f64_const q = fl (q < 0) \<bar>q\<bar>"

text \<open>Conversion of an integer to float64.\<close>

definition f64_of_int :: "int \<Rightarrow> float64" where
  "f64_of_int i = fl (i < 0) \<bar>of_int i\<bar>"

fun fneg :: "float64 \<Rightarrow> float64" where
  "fneg NaN = NaN"
| "fneg (Inf s) = Inf (\<not> s)"
| "fneg (Fin s q) = Fin (\<not> s) q"

fun fmul :: "float64 \<Rightarrow> float64 \<Rightarrow> float64" where
  "fmul (Fin s q) (Fin t r) = fl (s \<noteq> t) (q * r)"
| "fmul (Fin s q) (Inf t) = (if q = 0 then NaN else Inf (s \<noteq> t))"
| "fmul (Inf s) (Fin t r) = (if r = 0 then NaN else Inf (s \<noteq> t))"
| "fmul (Inf s) (Inf t) = Inf (s \<noteq> t)"
| "fmul _ _ = NaN"

fun fdiv :: "float64 \<Rightarrow> float64 \<Rightarrow> float64" where
  "fdiv (Fin s q) (Fin t r) =
     (if r = 0 then (if q = 0 then NaN else Inf (s \<noteq> t)) else fl (s \<noteq> t) (q / r))"
| "fdiv (Fin s q) (Inf t) = Fin (s \<noteq> t) 0"
| "fdiv (Inf s) (Fin t r) = Inf (s \<noteq> t)"
| "fdiv _ _ = NaN"

fun fadd :: "float64 \<Rightarrow> float64 \<Rightarrow> float64" where
  "fadd (Fin s q) (Fin t r) =
     (let v = sval s q + sval t r in if v = 0 then Fin (s \<and> t) 0 else fl (v < 0) \<bar>v\<bar>)"
| "fadd (Fin s q) (Inf t) = Inf t"
| "fadd (Inf s) (Fin t r) = Inf s"
| "fadd (Inf s) (Inf t) = (if s = t then Inf s else NaN)"
| "fadd _ _ = NaN"

definition fsub :: "float64 \<Rightarrow> float64 \<Rightarrow> float64" where
  "fsub a b = fadd a (fneg b)"

text \<open>The comparisons of Go on float64: every comparison with NaN is false.\<close>

fun flt :: "float64 \<Rightarrow> float64 \<Rightarrow> bool" where
  "flt (Fin s q) (Fin t r) = (sval s q < sval t r)"
| "flt (Fin s q) (Inf t) = (\<not> t)"
| "flt (Inf s) (Fin t r) = s"
| "flt (Inf s) (Inf t) = (s \<and> \<not> t)"
| "flt _ _ = False"

fun fle :: "float64 \<Rightarrow> float64 \<Rightarrow> bool" where
  "fle (Fin s q) (Fin t r) = (sval s q \<le> sval t r)"
| "fle (Fin s q) (Inf t) = (\<not> t)"
| "fle (Inf s) (Fin t r) = s"
| "fle (Inf s) (Inf t) = (if t then s else True)"
| "fle _ _ = False"

definition fgt :: "float64 \<Rightarrow> float64 \<Rightarrow> bool" where
  "fgt a b = flt b a"

definition fge :: "float64 \<Rightarrow> float64 \<Rightarrow> bool" where
  "fge a b = fle b a"

definition feq :: "float64 \<Rightarrow> float64 \<Rightarrow> bool" where
  "feq a b = (fle a b \<and> fle b a)"

section \<open>Formatting a float64: the verbs \<^verbatim>\<open>%v\<close> and \<^verbatim>\<open>%g\<close> of Go's fmt\<close>

text \<open>
  \<^verbatim>\<open>fmt.Sprintf("%v", x)\<close> and \<^verbatim>\<open>fmt.Sprintf("%g", x)\<close> on a float64 both print
  \<^verbatim>\<open>strconv.FormatFloat(x, 'g', -1, 64)\<close>: the shortest decimal digit string that reads back as
  \<open>x\<close>, laid out with an exponent when the decimal exponent is below \<open>- 4\<close> or at least 6,
  and as a plain decimal otherwise. NaN prints as \<^verbatim>\<open>NaN\<close>, the
  infinities as \<^verbatim>\<open>+Inf\<close> and \<^verbatim>\<open>-Inf\<close>, and a set sign bit of a finite value as a leading
  minus sign. Strings are byte strings, as in Go.
\<close>

text \<open>
  The interval of the rationals that round to the float64 of magnitude \<open>q\<close>: its lower end,
  its upper end, and whether the ends belong to it (when the mantissa is even).
\<close>

definition f64_interval :: "rat \<Rightarrow> rat \<times> rat \<times> bool" where
  "f64_interval q =
     (let e = expo q; mant = \<lfloor>q / 2 powi e\<rfloor>;
          upper = q + 2 powi (e - 1);
          lower = (if 2 ^ 52 < mant \<or> e = - 1074 then q - 2 powi (e - 1) else q - 2 powi (e - 2))
      in (lower, upper, even mant))"

fun in_interval :: "rat \<times> rat \<times> bool \<Rightarrow> rat \<Rightarrow> bool" where
  "in_interval (lower, upper, inclusive) c =
     (if inclusive then lower \<le> c \<and> c \<le> upper else lower < c \<and> c < upper)"

text \<open>
  The shortest digits: with \<open>n\<close> digits, counted from the leading digit of \<open>q\<close> (decimal
  exponent \<open>k\<close>), \<open>q\<close> lies between two neighbours \<open>lo * 10 ^ p\<close> and \<open>(lo + 1) * 10 ^ p\<close>.
  The first \<open>n\<close> at which one of them is in the interval \<open>iv\<close> gives the digits; when both
  are, the one nearer to \<open>q\<close>. The result is the integer of the digits and the exponent \<open>p\<close>
  of its last digit. 17 digits always suffice for a float64.
\<close>

fun shortest :: "nat \<Rightarrow> nat \<Rightarrow> rat \<times> rat \<times> bool \<Rightarrow> rat \<Rightarrow> int \<Rightarrow> int \<times> int" where
  "shortest 0 n iv q k = (rhe (q / 10 powi (k - int n + 1)), k - int n + 1)"
| "shortest (Suc fuel) n iv q k =
     (let p = k - int n + 1; lo = \<lfloor>q / 10 powi p\<rfloor>;
          okdown = in_interval iv (of_int lo * 10 powi p);
          okup = in_interval iv (of_int (lo + 1) * 10 powi p)
      in if okdown \<and> okup then (rhe (q / 10 powi p), p)
         else if okdown then (lo, p)
         else if okup then (lo + 1, p)
         else shortest fuel (Suc n) iv q k)"

definition digit_char :: "nat \<Rightarrow> char" where
  "digit_char d = ''0123456789'' ! d"

fun digits :: "nat \<Rightarrow> string" where
  "digits n = (if n < 10 then [digit_char n] else digits (n div 10) @ [digit_char (n mod 10)])"

declare digits.simps [simp del]

definition strip_zeros :: "string \<Rightarrow> string" where
  "strip_zeros ds = rev (dropWhile (\<lambda>c. c = CHR ''0'') (rev ds))"

text \<open>
  The decimal digits \<open>d\<close> (without trailing zeros) and the position \<open>dp\<close> of the decimal
  point of a positive float64 magnitude: its value is \<open>0.d * 10 ^ dp\<close>.
\<close>

definition decimal :: "rat \<Rightarrow> string \<times> int" where
  "decimal q =
     (case shortest 16 1 (f64_interval q) q (ilog 10 q) of
        (D, p) \<Rightarrow> (let ds = digits (nat D) in (strip_zeros ds, int (length ds) + p)))"

text \<open>The layout \<^verbatim>\<open>%e\<close> with all the digits: \<^verbatim>\<open>d.ddde+XX\<close>, at least two exponent digits.\<close>

definition fmtE :: "string \<Rightarrow> int \<Rightarrow> string" where
  "fmtE ds dp =
     (let ex = dp - 1 in
        take 1 ds @ (if 1 < length ds then ''.'' @ drop 1 ds else [])
        @ ''e'' @ (if ex < 0 then ''-'' else ''+'')
        @ (if \<bar>ex\<bar> < 10 then ''0'' else []) @ digits (nat \<bar>ex\<bar>))"

text \<open>The layout \<^verbatim>\<open>%f\<close> with all the digits and no more.\<close>

definition fmtF :: "string \<Rightarrow> int \<Rightarrow> string" where
  "fmtF ds dp =
     (if 0 < dp then take (nat dp) ds @ replicate (nat dp - length ds) (CHR ''0'') else ''0'')
     @ (if dp < int (length ds)
        then ''.'' @ replicate (nat (- dp)) (CHR ''0'') @ drop (nat dp) ds else [])"

text \<open>Format \<^verbatim>\<open>'g'\<close> with the shortest precision, for a positive finite magnitude.\<close>

definition fmt_mag :: "rat \<Rightarrow> string" where
  "fmt_mag q =
     (if q = 0 then ''0''
      else case decimal q of
        (ds, dp) \<Rightarrow> if dp - 1 < - 4 \<or> 6 \<le> dp - 1 then fmtE ds dp else fmtF ds dp)"

fun fmt_g :: "float64 \<Rightarrow> string" where
  "fmt_g NaN = ''NaN''"
| "fmt_g (Inf s) = (if s then ''-Inf'' else ''+Inf'')"
| "fmt_g (Fin s q) = (if s then ''-'' else []) @ fmt_mag q"

text \<open>On a float64, the verb \<^verbatim>\<open>%v\<close> is the verb \<^verbatim>\<open>%g\<close>.\<close>

definition fmt_v :: "float64 \<Rightarrow> string" where
  "fmt_v x = fmt_g x"

section \<open>Length (length.go)\<close>

type_synonym Length = float64
type_synonym Speed = float64
type_synonym Area = float64
type_synonym Temperature = float64

text \<open>
  The unit constants are typed constants: the compiler converts the untyped operand to the
  type (rounding it to float64) and rounds the result of each operation to float64.
\<close>

definition Meter :: Length where
  "Meter = f64_const 1"

definition Kilometer :: Length where
  "Kilometer = fmul (f64_const 1000) Meter"

definition Centimeter :: Length where
  "Centimeter = fmul (f64_const (1 / 100)) Meter"

definition Millimeter :: Length where
  "Millimeter = fmul (f64_const (1 / 1000)) Meter"

definition Micrometer :: Length where
  "Micrometer = fmul (f64_const (1 / 1000000)) Meter"

definition Foot :: Length where
  "Foot = fmul (f64_const (3048 / 10000)) Meter"

definition Mile :: Length where
  "Mile = fmul (f64_const 5280) Foot"

definition Inch :: Length where
  "Inch = fdiv Foot (f64_const 12)"

definition NauticalMile :: Length where
  "NauticalMile = fmul (f64_const 1852) Meter"

definition MeterPerSecond :: Speed where
  "MeterPerSecond = f64_const 1"

text \<open>
  \<^verbatim>\<open>time.Duration\<close> is an int64 count of nanoseconds. \<^verbatim>\<open>Duration.Seconds\<close> of the standard
  library is \<^verbatim>\<open>sec := d / Second; nsec := d % Second; return float64(sec) + float64(nsec)/1e9\<close>,
  with Go's integer division, which truncates towards zero.
\<close>

type_synonym Duration = "64 word"

definition Seconds :: "Duration \<Rightarrow> float64" where
  "Seconds d =
     (let sec = sint d sdiv 1000000000; nsec = sint d smod 1000000000
      in fadd (f64_of_int sec) (fdiv (f64_of_int nsec) (f64_const 1000000000)))"

definition Meters :: "Length \<Rightarrow> float64" where
  "Meters l = l"

definition PerTime :: "Length \<Rightarrow> Duration \<Rightarrow> Speed" where
  "PerTime l d = fmul (fdiv (Meters l) (Seconds d)) MeterPerSecond"

definition Abs :: "Length \<Rightarrow> Length" where
  "Abs l = (if flt l (f64_const 0) then fneg l else l)"

definition Kilometers :: "Length \<Rightarrow> float64" where
  "Kilometers l = fdiv l Kilometer"

definition Centimeters :: "Length \<Rightarrow> float64" where
  "Centimeters l = fdiv l Centimeter"

definition Millimeters :: "Length \<Rightarrow> float64" where
  "Millimeters l = fdiv l Millimeter"

definition Micrometers :: "Length \<Rightarrow> float64" where
  "Micrometers l = fdiv l Micrometer"

definition Feet :: "Length \<Rightarrow> float64" where
  "Feet l = fdiv l Foot"

definition Miles :: "Length \<Rightarrow> float64" where
  "Miles l = fdiv l Mile"

definition Inches :: "Length \<Rightarrow> float64" where
  "Inches l = fdiv l Inch"

definition NauticalMiles :: "Length \<Rightarrow> float64" where
  "NauticalMiles l = fdiv l NauticalMile"

record unitDesc =
  u_length :: Length
  u_name :: string
  u_symbol :: string

definition kmDesc :: unitDesc where
  "kmDesc = \<lparr>u_length = Kilometer, u_name = ''Kilometer'', u_symbol = ''km''\<rparr>"

definition meterDesc :: unitDesc where
  "meterDesc = \<lparr>u_length = Meter, u_name = ''Meter'', u_symbol = ''m''\<rparr>"

text \<open>The symbol of the micrometer is the two bytes of the micro sign in UTF-8, then \<^verbatim>\<open>m\<close>.\<close>

definition unitThresholds :: "unitDesc list" where
  "unitThresholds =
     [kmDesc, meterDesc,
      \<lparr>u_length = Centimeter, u_name = ''Centimeter'', u_symbol = ''cm''\<rparr>,
      \<lparr>u_length = Millimeter, u_name = ''Millimeter'', u_symbol = ''mm''\<rparr>,
      \<lparr>u_length = Micrometer, u_name = ''Micrometer'', u_symbol = [CHR 0xC2, CHR 0xB5] @ ''m''\<rparr>]"

text \<open>The loop of \<^verbatim>\<open>format\<close> over the thresholds; \<open>None\<close> when it falls through.\<close>

fun format_loop :: "Length \<Rightarrow> unitDesc list \<Rightarrow> (string \<times> unitDesc) option" where
  "format_loop l [] = None"
| "format_loop l (unitThreshold # rest) =
     (if fge (Abs l) (u_length unitThreshold)
      then Some (fmt_v (fdiv l (u_length unitThreshold)), unitThreshold)
      else format_loop l rest)"

definition format :: "Length \<Rightarrow> string \<times> unitDesc" where
  "format l =
     (if fge (Abs l) (fmul (f64_const 1000) (u_length kmDesc))
      then (fmt_g (fdiv l (u_length meterDesc)), meterDesc)
      else case format_loop l unitThresholds of
             Some r \<Rightarrow> r
           | None \<Rightarrow> (fmt_g (fdiv l (u_length meterDesc)), meterDesc))"

definition String :: "Length \<Rightarrow> string" where
  "String l = (case format l of (v, desc) \<Rightarrow> v @ u_symbol desc)"

definition GoString :: "Length \<Rightarrow> string" where
  "GoString l = (case format l of (v, desc) \<Rightarrow> v @ '' * '' @ u_name desc)"

section \<open>Area\<close>

definition SquareMeter :: Area where
  "SquareMeter = f64_const 1"

definition SquareKilometer :: Area where
  "SquareKilometer = fmul (f64_const 1000000) SquareMeter"

definition Hectare :: Area where
  "Hectare = fmul (f64_const 10000) SquareMeter"

definition SquareCentimeter :: Area where
  "SquareCentimeter = fmul (f64_const (1 / 10000)) SquareMeter"

definition SquareMillimeter :: Area where
  "SquareMillimeter = fmul (f64_const (1 / 1000000)) SquareMeter"

definition SquareFoot :: Area where
  "SquareFoot = fmul (f64_const (3048 / 10000 * (3048 / 10000))) SquareMeter"

definition SquareMile :: Area where
  "SquareMile = fmul (f64_const (5280 * 5280)) SquareFoot"

definition Acre :: Area where
  "Acre = fmul (f64_const (66 * 660)) SquareFoot"

definition SquareInch :: Area where
  "SquareInch = fdiv SquareFoot (f64_const (12 * 12))"

definition Area_Abs :: "Area \<Rightarrow> Area" where
  "Area_Abs a = (if flt a (f64_const 0) then fneg a else a)"

definition SquareMeters :: "Area \<Rightarrow> float64" where
  "SquareMeters a = a"

definition SquareKilometers :: "Area \<Rightarrow> float64" where
  "SquareKilometers a = fdiv a SquareKilometer"

definition Hectares :: "Area \<Rightarrow> float64" where
  "Hectares a = fdiv a Hectare"

definition SquareCentimeters :: "Area \<Rightarrow> float64" where
  "SquareCentimeters a = fdiv a SquareCentimeter"

definition SquareMillimeters :: "Area \<Rightarrow> float64" where
  "SquareMillimeters a = fdiv a SquareMillimeter"

definition SquareFeet :: "Area \<Rightarrow> float64" where
  "SquareFeet a = fdiv a SquareFoot"

definition SquareMiles :: "Area \<Rightarrow> float64" where
  "SquareMiles a = fdiv a SquareMile"

definition Acres :: "Area \<Rightarrow> float64" where
  "Acres a = fdiv a Acre"

definition SquareInches :: "Area \<Rightarrow> float64" where
  "SquareInches a = fdiv a SquareInch"

record areaUnitDesc =
  a_area :: Area
  a_name :: string
  a_symbol :: string

definition squareKmDesc :: areaUnitDesc where
  "squareKmDesc = \<lparr>a_area = SquareKilometer, a_name = ''SquareKilometer'', a_symbol = ''km^2''\<rparr>"

definition squareMeterDesc :: areaUnitDesc where
  "squareMeterDesc = \<lparr>a_area = SquareMeter, a_name = ''SquareMeter'', a_symbol = ''m^2''\<rparr>"

definition areaUnitThresholds :: "areaUnitDesc list" where
  "areaUnitThresholds =
     [squareKmDesc, squareMeterDesc,
      \<lparr>a_area = SquareCentimeter, a_name = ''SquareCentimeter'', a_symbol = ''cm^2''\<rparr>,
      \<lparr>a_area = SquareMillimeter, a_name = ''SquareMillimeter'', a_symbol = ''mm^2''\<rparr>]"

fun Area_format_loop :: "Area \<Rightarrow> areaUnitDesc list \<Rightarrow> (string \<times> areaUnitDesc) option" where
  "Area_format_loop a [] = None"
| "Area_format_loop a (u # rest) =
     (if fge (Area_Abs a) (a_area u)
      then Some (fmt_v (fdiv a (a_area u)), u)
      else Area_format_loop a rest)"

definition Area_format :: "Area \<Rightarrow> string \<times> areaUnitDesc" where
  "Area_format a =
     (if fgt (Area_Abs a) (fmul (f64_const 1000000) (a_area squareKmDesc))
      then (fmt_g (SquareMeters a), squareMeterDesc)
      else case Area_format_loop a areaUnitThresholds of
             Some r \<Rightarrow> r
           | None \<Rightarrow> (fmt_g (SquareMeters a), squareMeterDesc))"

definition Area_String :: "Area \<Rightarrow> string" where
  "Area_String a = (case Area_format a of (v, desc) \<Rightarrow> v @ a_symbol desc)"

definition Area_GoString :: "Area \<Rightarrow> string" where
  "Area_GoString a = (case Area_format a of (v, desc) \<Rightarrow> v @ '' * '' @ a_name desc)"

section \<open>Speed\<close>

text \<open>
  \<^verbatim>\<open>hourInSeconds\<close> is \<^verbatim>\<open>Speed(time.Hour / time.Second)\<close>, a quotient of integer constants
  (nanoseconds).
\<close>

definition hourInSeconds :: Speed where
  "hourInSeconds = f64_const (of_int (3600000000000 div 1000000000))"

definition KilometerPerHour :: Speed where
  "KilometerPerHour = fdiv (fmul (fdiv Kilometer Meter) MeterPerSecond) hourInSeconds"

definition FootPerSecond :: Speed where
  "FootPerSecond = fmul (fdiv Foot Meter) MeterPerSecond"

definition MilePerHour :: Speed where
  "MilePerHour = fdiv (fmul (fdiv Mile Foot) FootPerSecond) hourInSeconds"

definition Knot :: Speed where
  "Knot = fmul (fdiv NauticalMile Kilometer) KilometerPerHour"

definition KilometersPerHour :: "Speed \<Rightarrow> float64" where
  "KilometersPerHour s = fdiv s KilometerPerHour"

definition MilesPerHour :: "Speed \<Rightarrow> float64" where
  "MilesPerHour s = fdiv s MilePerHour"

definition FeetPerSecond :: "Speed \<Rightarrow> float64" where
  "FeetPerSecond s = fdiv s FootPerSecond"

definition Knots :: "Speed \<Rightarrow> float64" where
  "Knots s = fdiv s Knot"

definition MetersPerSecond :: "Speed \<Rightarrow> float64" where
  "MetersPerSecond s = fdiv s MeterPerSecond"

definition Speed_String :: "Speed \<Rightarrow> string" where
  "Speed_String s = fmt_g (MetersPerSecond s) @ '' m/s''"

definition Speed_GoString :: "Speed \<Rightarrow> string" where
  "Speed_GoString s = fmt_g (MetersPerSecond s) @ '' * MeterPerSecond''"

section \<open>Temperature\<close>

definition Kelvin :: Temperature where
  "Kelvin = f64_const 1"

definition Rankine :: Temperature where
  "Rankine = fmul (f64_const (5 / 9)) Kelvin"

definition celsius0 :: Temperature where
  "celsius0 = fmul (f64_const (27315 / 100)) Kelvin"

definition fahrenheit0 :: Temperature where
  "fahrenheit0 = fmul (f64_const (45967 / 100)) Rankine"

definition temperatureFromKelvin :: "float64 \<Rightarrow> Temperature" where
  "temperatureFromKelvin k = fmul k Kelvin"

definition TemperatureFromDegreesCelsius :: "float64 \<Rightarrow> Temperature" where
  "TemperatureFromDegreesCelsius c = fadd (fmul c Kelvin) celsius0"

definition TemperatureFromDegreesFahrenheit :: "float64 \<Rightarrow> Temperature" where
  "TemperatureFromDegreesFahrenheit f = fadd (fmul f Rankine) fahrenheit0"

definition temperatureFromDegreesRankine :: "float64 \<Rightarrow> Temperature" where
  "temperatureFromDegreesRankine r = fmul r Rankine"

definition Temperature_Kelvin :: "Temperature \<Rightarrow> float64" where
  "Temperature_Kelvin t = fdiv t Kelvin"

definition DegreesCelsius :: "Temperature \<Rightarrow> float64" where
  "DegreesCelsius t = fdiv (fsub t celsius0) Kelvin"

definition DegreesFahrenheit :: "Temperature \<Rightarrow> float64" where
  "DegreesFahrenheit t = fdiv (fsub t fahrenheit0) Rankine"

definition DegreesRankine :: "Temperature \<Rightarrow> float64" where
  "DegreesRankine t = fdiv t Rankine"

definition Temperature_String :: "Temperature \<Rightarrow> string" where
  "Temperature_String t = fmt_g (Temperature_Kelvin t) @ '' K''"

definition Temperature_GoString :: "Temperature \<Rightarrow> string" where
  "Temperature_GoString t = fmt_v (Temperature_Kelvin t) @ '' * Kelvin''"

section \<open>Units and accessors, and the tolerance of the conversion tests\<close>

text \<open>
  The units with their accessors, as the tables of the conversion tests pair them; for
  Temperature, the two units that are pure scales. A value in the unit \<open>U\<close> is \<open>x * U\<close>.
\<close>

definition length_units :: "(Length \<times> (Length \<Rightarrow> float64)) list" where
  "length_units =
     [(Kilometer, Kilometers), (Meter, Meters), (Centimeter, Centimeters),
      (Millimeter, Millimeters), (Micrometer, Micrometers), (Mile, Miles), (Foot, Feet),
      (Inch, Inches), (NauticalMile, NauticalMiles)]"

definition area_units :: "(Area \<times> (Area \<Rightarrow> float64)) list" where
  "area_units =
     [(SquareKilometer, SquareKilometers), (Hectare, Hectares), (SquareMeter, SquareMeters),
      (SquareCentimeter, SquareCentimeters), (SquareMillimeter, SquareMillimeters),
      (SquareMile, SquareMiles), (Acre, Acres), (SquareFoot, SquareFeet),
      (SquareInch, SquareInches)]"

definition speed_units :: "(Speed \<times> (Speed \<Rightarrow> float64)) list" where
  "speed_units =
     [(MeterPerSecond, MetersPerSecond), (FootPerSecond, FeetPerSecond),
      (KilometerPerHour, KilometersPerHour), (MilePerHour, MilesPerHour), (Knot, Knots)]"

definition temperature_scale_units :: "(Temperature \<times> (Temperature \<Rightarrow> float64)) list" where
  "temperature_scale_units = [(Kelvin, Temperature_Kelvin), (Rankine, DegreesRankine)]"

text \<open>
  The result \<open>got\<close> is within the relative tolerance \<open>eps\<close> of \<open>want\<close>: both are finite and
  their values differ by at most \<open>eps\<close> times the magnitude of \<open>want\<close>.
\<close>

definition within_rel :: "rat \<Rightarrow> float64 \<Rightarrow> float64 \<Rightarrow> bool" where
  "within_rel eps got want =
     (is_finite got \<and> is_finite want \<and> \<bar>fval got - fval want\<bar> \<le> eps * \<bar>fval want\<bar>)"

section \<open>Facts about the rounding\<close>

lemma powi_less_iff:
  fixes B :: rat
  assumes "1 < B"
  shows "B powi a < B powi b \<longleftrightarrow> a < b"
proof
  assume h: "B powi a < B powi b"
  show "a < b"
  proof (rule ccontr)
    assume "\<not> a < b"
    hence "b \<le> a" by simp
    hence "B powi b \<le> B powi a" using assms by (intro power_int_increasing) simp_all
    with h show False by simp
  qed
next
  assume "a < b"
  thus "B powi a < B powi b" using assms by (rule power_int_strict_increasing)
qed

lemma powi_le_iff:
  fixes B :: rat
  assumes "1 < B"
  shows "B powi a \<le> B powi b \<longleftrightarrow> a \<le> b"
  using powi_less_iff[OF assms, of b a] by (simp add: not_less[symmetric])

lemma ilog_ge1:
  assumes "2 \<le> b" "1 \<le> q"
  shows "rat_of_nat b powi (ilog b q) \<le> q \<and> q < rat_of_nat b powi (ilog b q + 1)"
proof -
  define n where "n = nat \<lfloor>q\<rfloor>"
  have n0: "0 < n" using assms by (simp add: n_def)
  define j where "j = floorlog b n"
  have b: "b ^ (j - 1) \<le> n" "n < b ^ j"
    using floorlog_bounds[of n b] n0 assms(1) by (simp_all add: j_def)
  have j0: "0 < j" using n0 assms(1) by (simp add: j_def floorlog_def)
  have k: "ilog b q = int (j - 1)" using assms j0 by (simp add: ilog_def j_def n_def)
  have nq: "rat_of_nat n \<le> q" "q < rat_of_nat n + 1"
    using assms by (simp_all add: n_def) linarith+
  have "rat_of_nat (b ^ (j - 1)) \<le> rat_of_nat n"
    using b(1) by (simp only: of_nat_le_iff)
  hence "rat_of_nat b ^ (j - 1) \<le> rat_of_nat n" by simp
  hence "rat_of_nat b ^ (j - 1) \<le> q" using nq(1) by (rule order_trans)
  hence l: "rat_of_nat b powi (ilog b q) \<le> q" by (simp add: k)
  have "Suc n \<le> b ^ j" using b(2) by simp
  hence "rat_of_nat (Suc n) \<le> rat_of_nat (b ^ j)" by (simp only: of_nat_le_iff)
  hence "rat_of_nat n + 1 \<le> rat_of_nat b ^ j" by simp
  hence "q < rat_of_nat b ^ j" using nq(2) by (rule less_le_trans[rotated])
  moreover have "ilog b q + 1 = int j" using k j0 by simp
  ultimately have "q < rat_of_nat b powi (ilog b q + 1)" by simp
  with l show ?thesis by simp
qed

lemma ilog_lt1:
  assumes "2 \<le> b" "0 < q" "q < 1"
  shows "rat_of_nat b powi (ilog b q) \<le> q \<and> q < rat_of_nat b powi (ilog b q + 1)"
proof -
  define N where "N = \<lceil>1 / q\<rceil>"
  have iq: "1 < 1 / q" using assms by simp
  have N2: "2 \<le> N" using iq unfolding N_def by linarith
  define M where "M = nat (N - 1)"
  have M0: "0 < M" using N2 by (simp add: M_def)
  define j where "j = floorlog b M"
  have b: "b ^ (j - 1) \<le> M" "M < b ^ j"
    using floorlog_bounds[of M b] M0 assms(1) by (simp_all add: j_def)
  have j0: "0 < j" using M0 assms(1) by (simp add: j_def floorlog_def)
  have k: "ilog b q = - int j" using assms by (simp add: ilog_def j_def M_def N_def)
  have Mq: "rat_of_nat M < 1 / q" "1 / q \<le> rat_of_nat M + 1"
  proof -
    have "rat_of_nat M = of_int N - 1" using N2 by (simp add: M_def)
    moreover have "of_int N - 1 < 1 / q" "1 / q \<le> of_int N" unfolding N_def by linarith+
    ultimately show "rat_of_nat M < 1 / q" "1 / q \<le> rat_of_nat M + 1" by simp_all
  qed
  have bpos: "0 < rat_of_nat b ^ j" "0 < rat_of_nat b ^ (j - 1)" using assms(1) by simp_all
  have "Suc M \<le> b ^ j" using b(2) by simp
  hence "rat_of_nat (Suc M) \<le> rat_of_nat (b ^ j)" by (simp only: of_nat_le_iff)
  hence "rat_of_nat M + 1 \<le> rat_of_nat b ^ j" by simp
  hence "1 / q \<le> rat_of_nat b ^ j" using Mq(2) by (rule order_trans[rotated])
  hence "1 / rat_of_nat b ^ j \<le> q" using assms(2) bpos(1)
    by (simp add: field_simps)
  hence l: "rat_of_nat b powi (ilog b q) \<le> q" by (simp add: k power_int_minus_divide)
  have "rat_of_nat (b ^ (j - 1)) \<le> rat_of_nat M"
    using b(1) by (simp only: of_nat_le_iff)
  hence "rat_of_nat b ^ (j - 1) \<le> rat_of_nat M" by simp
  hence "rat_of_nat b ^ (j - 1) < 1 / q" using Mq(1) by (rule le_less_trans)
  hence "q < 1 / rat_of_nat b ^ (j - 1)" using assms(2) bpos(2) by (simp add: field_simps)
  moreover have "ilog b q + 1 = - int (j - 1)" using k j0 by simp
  ultimately have "q < rat_of_nat b powi (ilog b q + 1)"
    by (simp only: power_int_minus_divide power_int_of_nat)
  with l show ?thesis by simp
qed

lemma ilog_bounds:
  "2 \<le> b \<Longrightarrow> 0 < q \<Longrightarrow>
   rat_of_nat b powi (ilog b q) \<le> q \<and> q < rat_of_nat b powi (ilog b q + 1)"
  using ilog_ge1 ilog_lt1 by (cases "1 \<le> q") auto

lemma ilog_unique:
  assumes "2 \<le> b" "0 < q" "rat_of_nat b powi k \<le> q" "q < rat_of_nat b powi (k + 1)"
  shows "ilog b q = k"
proof -
  have B: "1 < rat_of_nat b" using assms(1) by simp
  have b: "rat_of_nat b powi (ilog b q) \<le> q" "q < rat_of_nat b powi (ilog b q + 1)"
    using ilog_bounds[OF assms(1,2)] by simp_all
  have "rat_of_nat b powi k < rat_of_nat b powi (ilog b q + 1)"
    using assms(3) b(2) by (rule le_less_trans)
  hence 1: "k < ilog b q + 1" by (simp only: powi_less_iff[OF B])
  have "rat_of_nat b powi (ilog b q) < rat_of_nat b powi (k + 1)"
    using b(1) assms(4) by (rule le_less_trans)
  hence 2: "ilog b q < k + 1" by (simp only: powi_less_iff[OF B])
  from 1 2 show ?thesis by simp
qed

lemma ilog2_bounds: "0 < q \<Longrightarrow> 2 powi (ilog 2 q) \<le> q \<and> q < 2 powi (ilog 2 q + 1)"
  using ilog_bounds[of 2 q] by simp

lemma ilog2_unique: "0 < q \<Longrightarrow> 2 powi k \<le> q \<Longrightarrow> q < 2 powi (k + 1) \<Longrightarrow> ilog 2 q = k"
  using ilog_unique[of 2 q k] by simp

lemma ilog10_unique: "0 < q \<Longrightarrow> 10 powi k \<le> q \<Longrightarrow> q < 10 powi (k + 1) \<Longrightarrow> ilog 10 q = k"
  using ilog_unique[of 10 q k] by simp

lemma rhe_eqI: "\<bar>x - of_int m\<bar> < 1 / 2 \<Longrightarrow> rhe x = m"
proof -
  assume h: "\<bar>x - of_int m\<bar> < 1 / 2"
  have "\<lfloor>x\<rfloor> = m \<or> \<lfloor>x\<rfloor> = m - 1" using h by linarith
  thus ?thesis
  proof
    assume f: "\<lfloor>x\<rfloor> = m"
    hence "x - of_int m < 1 / 2" using h by linarith
    thus ?thesis using f by (simp add: rhe_def Let_def)
  next
    assume f: "\<lfloor>x\<rfloor> = m - 1"
    have "- (1 / 2) < x - of_int m" using h by linarith
    hence "1 / 2 < x - of_int (m - 1)" by simp
    hence "\<not> x - of_int (m - 1) < 1 / 2" by simp
    thus ?thesis using f \<open>1 / 2 < x - of_int (m - 1)\<close> unfolding rhe_def Let_def by simp
  qed
qed

lemma rhe_of_int [simp]: "rhe (of_int m) = m"
  by (rule rhe_eqI) simp

lemma rhe_error: "\<bar>of_int (rhe x) - x\<bar> \<le> 1 / 2"
proof -
  define f where "f = \<lfloor>x\<rfloor>"
  define r where "r = x - of_int f"
  have r: "0 \<le> r" "r < 1" unfolding r_def f_def by linarith+
  have x: "x = of_int f + r" by (simp add: r_def)
  have "rhe x = (if r < 1 / 2 then f else if 1 / 2 < r then f + 1
                 else if even f then f else f + 1)"
    unfolding rhe_def Let_def f_def r_def by simp
  moreover have "\<bar>of_int f - x\<bar> \<le> 1 / 2" if "r \<le> 1 / 2"
    using that r unfolding x by simp
  moreover have "\<bar>of_int (f + 1) - x\<bar> \<le> 1 / 2" if "1 / 2 \<le> r"
    using that r unfolding x by simp
  ultimately show ?thesis by (auto simp: not_less)
qed

lemma expo_cert:
  "0 < q \<Longrightarrow> 2 powi k \<le> q \<Longrightarrow> q < 2 powi (k + 1) \<Longrightarrow> expo q = max (k - 52) (- 1074)"
  by (simp add: expo_def ilog2_unique)

lemma round_mag_cert:
  assumes "0 < q" "2 powi k \<le> q" "q < 2 powi (k + 1)" "e = max (k - 52) (- 1074)"
    and "\<bar>q / 2 powi e - of_int m\<bar> < 1 / 2"
  shows "round_mag q = of_int m * 2 powi e"
proof -
  have "expo q = e" using assms(1-4) by (simp add: expo_cert)
  moreover have "rhe (q / 2 powi e) = m" using assms(5) by (rule rhe_eqI)
  ultimately show ?thesis using assms(1) by (simp add: round_mag_def)
qed

lemma fl_cert:
  assumes "0 < q" "2 powi k \<le> q" "q < 2 powi (k + 1)" "e = max (k - 52) (- 1074)"
    and "\<bar>q / 2 powi e - of_int m\<bar> < 1 / 2"
    and "r = of_int m * 2 powi e" "r < 2 ^ 1024"
  shows "fl s q = Fin s r"
  using round_mag_cert[OF assms(1-5)] assms(6,7) by (simp add: fl_def Let_def)

lemma fl_zero [simp]: "fl s 0 = Fin s 0"
  by (simp add: fl_def round_mag_def)

lemma rhe_le: "x \<le> of_int n \<Longrightarrow> rhe x \<le> n"
proof -
  assume h: "x \<le> of_int n"
  have f: "\<lfloor>x\<rfloor> \<le> n" using h by linarith
  show ?thesis
  proof (cases "\<lfloor>x\<rfloor> = n")
    case True
    hence "x = of_int n" using h by linarith
    thus ?thesis by simp
  next
    case False
    hence "\<lfloor>x\<rfloor> + 1 \<le> n" using f by simp
    thus ?thesis using f unfolding rhe_def Let_def by auto
  qed
qed

lemma rhe_ge: "of_int n \<le> x \<Longrightarrow> n \<le> rhe x"
proof -
  assume h: "of_int n \<le> x"
  have "n \<le> \<lfloor>x\<rfloor>" using h by (simp add: le_floor_iff)
  thus ?thesis unfolding rhe_def Let_def by auto
qed

lemma p2_add: "(2::rat) powi (a + b) = 2 powi a * 2 powi b"
  by (simp add: power_int_add)

lemma p2_pos [simp]: "0 < (2::rat) powi a"
  by simp

lemma p2_less_iff [simp]: "(2::rat) powi a < 2 powi b \<longleftrightarrow> a < b"
  by (rule powi_less_iff) simp

lemma p2_le_iff [simp]: "(2::rat) powi a \<le> 2 powi b \<longleftrightarrow> a \<le> b"
  by (rule powi_le_iff) simp

lemma expo_ge: "- 1074 \<le> expo q"
  by (simp add: expo_def)

lemma expo_normal:
  assumes "0 < q" "2 powi (e + 52) \<le> q" "q < 2 powi (e + 53)" "- 1074 \<le> e"
  shows "expo q = e"
proof -
  have "ilog 2 q = e + 52" using assms(1-3) by (intro ilog2_unique) (simp_all add: add.assoc)
  thus ?thesis using assms(4) by (simp add: expo_def)
qed

lemma expo_subnormal:
  assumes "0 < q" "q < 2 powi (- 1022)"
  shows "expo q = - 1074"
proof -
  have "2 powi (ilog 2 q) \<le> q" using ilog2_bounds[OF assms(1)] by simp
  hence "(2::rat) powi (ilog 2 q) < 2 powi (- 1022)" using assms(2) by (rule le_less_trans)
  hence "ilog 2 q < - 1022" by (simp only: p2_less_iff)
  thus ?thesis by (simp add: expo_def)
qed

lemma round_mag_repr:
  assumes "0 < m" "m \<le> 2 ^ 53" "- 1074 \<le> e" "2 ^ 52 \<le> m \<or> e = - 1074"
  shows "round_mag (of_int m * 2 powi e) = of_int m * 2 powi e"
proof -
  define r :: rat where "r = of_int m * 2 powi e"
  have rpos: "0 < r" using assms(1) by (simp add: r_def)
  have m53: "rat_of_int m \<le> 2 ^ 53" using assms(2) by (metis of_int_le_iff of_int_numeral of_int_power)
  show ?thesis
  proof (cases "m = 2 ^ 53")
    case True
    hence r: "r = 2 powi (e + 53)" by (simp add: r_def p2_add)
    have "expo r = e + 1" using assms(3) rpos
      by (intro expo_normal) (simp_all add: r)
    moreover have "r / 2 powi (e + 1) = of_int (2 ^ 52)"
      unfolding r by (simp add: power_int_diff[symmetric])
    ultimately have "round_mag r = of_int (2 ^ 52) * 2 powi (e + 1)"
      using rpos by (simp add: round_mag_def del: of_int_power of_int_numeral)
    also have "\<dots> = r" unfolding r by (simp add: p2_add)
    finally show ?thesis by (simp add: r_def)
  next
    case False
    hence mlt: "m < 2 ^ 53" using assms(2) by simp
    hence m53': "rat_of_int m < 2 ^ 53" by (metis of_int_less_iff of_int_numeral of_int_power)
    have ex: "expo r = e"
    proof (cases "2 ^ 52 \<le> m")
      case True
      hence "(2::rat) ^ 52 \<le> rat_of_int m" by (metis of_int_le_iff of_int_numeral of_int_power)
      hence "2 powi (e + 52) \<le> r" "r < 2 powi (e + 53)"
        using m53' by (simp_all add: r_def p2_add mult.commute)
      thus ?thesis using rpos assms(3) by (intro expo_normal)
    next
      case False
      hence e: "e = - 1074" using assms(4) by simp
      have "m < 2 ^ 52" using False by simp
      hence "rat_of_int m < 2 ^ 52" by (metis of_int_less_iff of_int_numeral of_int_power)
      hence "r < 2 ^ 52 * 2 powi (- 1074)" by (simp add: r_def e)
      also have "\<dots> = 2 powi (52 + (- 1074))" by (simp only: p2_add power_int_numeral)
      finally have "r < 2 powi (- 1022)" by simp
      thus ?thesis using rpos e by (simp add: expo_subnormal)
    qed
    have "r / 2 powi e = of_int m" by (simp add: r_def)
    thus ?thesis using ex rpos by (simp add: round_mag_def r_def[symmetric])
  qed
qed

lemma round_mag_idem:
  assumes "0 \<le> q"
  shows "round_mag (round_mag q) = round_mag q"
proof (cases "q = 0")
  case True
  thus ?thesis by (simp add: round_mag_def)
next
  case False
  hence qpos: "0 < q" using assms by simp
  define e where "e = expo q"
  define y where "y = q / 2 powi e"
  define m where "m = rhe y"
  have r: "round_mag q = of_int m * 2 powi e"
    using False by (simp add: round_mag_def e_def y_def m_def)
  have ypos: "0 < y" using qpos by (simp add: y_def)
  have b: "2 powi (ilog 2 q) \<le> q" "q < 2 powi (ilog 2 q + 1)"
    using ilog2_bounds[OF qpos] by simp_all
  have ege: "- 1074 \<le> e" "ilog 2 q - 52 \<le> e" by (simp_all add: e_def expo_def)
  have X: "(2::rat) powi (ilog 2 q + 1) \<le> 2 powi (e + 53)" using ege(2) by simp
  have "q < 2 powi (e + 53)" by (rule less_le_trans[OF b(2) X])
  hence "y < 2 ^ 53" by (simp add: y_def p2_add field_simps)
  hence "y \<le> of_int (2 ^ 53)" by simp
  hence m_le: "m \<le> 2 ^ 53" unfolding m_def by (rule rhe_le)
  have "of_int 0 \<le> y" using ypos by simp
  hence m_ge: "0 \<le> m" unfolding m_def by (rule rhe_ge)
  show ?thesis
  proof (cases "m = 0")
    case True
    hence "round_mag q = 0" by (simp add: r)
    thus ?thesis by (simp add: round_mag_def)
  next
    case False
    hence mpos: "0 < m" using m_ge by simp
    have "2 ^ 52 \<le> m \<or> e = - 1074"
    proof (cases "e = - 1074")
      case False
      hence "e = ilog 2 q - 52" using ege by (simp add: e_def expo_def)
      hence "2 powi (e + 52) \<le> q" using b(1) by simp
      hence "of_int (2 ^ 52) \<le> y" by (simp add: y_def p2_add field_simps)
      hence "2 ^ 52 \<le> m" unfolding m_def by (rule rhe_ge)
      thus ?thesis by simp
    qed simp
    thus ?thesis unfolding r using mpos m_le ege(1) by (intro round_mag_repr)
  qed
qed

lemma round_mag_nonneg: "0 \<le> q \<Longrightarrow> 0 \<le> round_mag q"
proof -
  assume "0 \<le> q"
  hence "of_int 0 \<le> q / 2 powi expo q" by simp
  hence "0 \<le> rhe (q / 2 powi expo q)" by (rule rhe_ge)
  thus ?thesis by (simp add: round_mag_def)
qed

lemma valid_fl: "0 \<le> q \<Longrightarrow> valid (fl s q)"
  by (simp add: fl_def Let_def round_mag_idem round_mag_nonneg not_le)

lemma fl_valid: "valid (Fin s q) \<Longrightarrow> fl t q = Fin t q"
  by (simp add: fl_def Let_def)

lemma valid_const: "valid (f64_const c)"
  by (simp add: f64_const_def valid_fl)

lemma fl_1: "fl s 1 = Fin s 1"
  by (rule fl_cert[where k = 0 and m = "2 ^ 52" and e = "- 52"]) simp_all

lemma fl_1000: "fl s 1000 = Fin s 1000"
  by (rule fl_cert[where k = 9 and m = "1000 * 2 ^ 43" and e = "- 43"]) simp_all

lemma fl_cm: "fl s (1 / 100) = Fin s (5764607523034235 / 576460752303423488)"
  by (rule fl_cert[where k = "- 7" and m = "5764607523034235" and e = "- 59"]) simp_all

lemma Meter_eq: "Meter = Fin False 1"
  by (simp add: Meter_def f64_const_def fl_1)

lemma Kilometer_eq: "Kilometer = Fin False 1000"
  by (simp add: Kilometer_def f64_const_def Meter_eq fl_1000)

lemma fl_fl: "0 \<le> q \<Longrightarrow> fl s q = Fin t r \<Longrightarrow> fl u r = Fin u r"
  using valid_fl[of q s] by (simp add: fl_valid)


lemma Centimeter_eq: "Centimeter = Fin False (5764607523034235 / 576460752303423488)"
  using fl_fl[OF _ fl_cm[of False], of False]
  by (simp add: Centimeter_def f64_const_def Meter_eq fl_cm)

lemma fmul_one: "valid (Fin s q) \<Longrightarrow> fmul (Fin s q) (Fin False 1) = Fin s q"
  by (simp add: fl_def Let_def)

lemma fdiv_one: "valid (Fin s q) \<Longrightarrow> fdiv (Fin s q) (Fin False 1) = Fin s q"
  by (simp add: fl_def Let_def)

section \<open>The values of the unit constants\<close>

lemma fl_mm: "fl s (1 / 1000) = Fin s (1152921504606847 / 1152921504606846976)"
  by (rule fl_cert[where k = "- 10" and m = 4611686018427388 and e = "- 62"]) simp_all

lemma fl_um: "fl s (1 / 1000000) = Fin s (4722366482869645 / 4722366482869645213696)"
  by (rule fl_cert[where k = "- 20" and m = 4722366482869645 and e = "- 72"]) simp_all

lemma fl_1e6: "fl s 1000000 = Fin s 1000000"
  by (rule fl_cert[where k = 19 and m = 8589934592000000 and e = "- 33"]) simp_all

lemma fl_1e12: "fl s 1000000000000 = Fin s 1000000000000"
  by (rule fl_cert[where k = 39 and m = "1000000000000 * 2 ^ 13" and e = "- 13"]) simp_all

lemma Millimeter_eq: "Millimeter = Fin False (1152921504606847 / 1152921504606846976)"
  using fl_fl[OF _ fl_mm[of False], of False]
  by (simp add: Millimeter_def f64_const_def Meter_eq fl_mm)

lemma Micrometer_eq: "Micrometer = Fin False (4722366482869645 / 4722366482869645213696)"
  using fl_fl[OF _ fl_um[of False], of False]
  by (simp add: Micrometer_def f64_const_def Meter_eq fl_um)

lemma zero_eq: "f64_const 0 = Fin False 0"
  by (simp add: f64_const_def)

lemma bypass_eq: "fmul (f64_const 1000) (u_length kmDesc) = Fin False 1000000"
  by (simp add: kmDesc_def Kilometer_eq f64_const_def fl_1000 fl_1e6)

lemma SquareMeter_eq: "SquareMeter = Fin False 1"
  by (simp add: SquareMeter_def f64_const_def fl_1)

lemma SquareKilometer_eq: "SquareKilometer = Fin False 1000000"
  by (simp add: SquareKilometer_def SquareMeter_eq f64_const_def fl_1e6)

lemma area_bypass_eq:
  "fmul (f64_const 1000000) (a_area squareKmDesc) = Fin False 1000000000000"
  by (simp add: squareKmDesc_def SquareKilometer_eq f64_const_def fl_1e6 fl_1e12)

section \<open>Evaluating the formatter\<close>

lemma floor_num: "\<lfloor>(numeral a :: rat) / numeral b\<rfloor> = numeral a div numeral b"
  using floor_divide_of_int_eq[of "numeral a" "numeral b", where ?'a = rat] by simp

lemma floor_one_num: "\<lfloor>(1 :: rat) / numeral b\<rfloor> = 1 div numeral b"
  using floor_divide_of_int_eq[of 1 "numeral b", where ?'a = rat] by simp

lemma shortest_numeral:
  "shortest (numeral v) n iv q k =
     (let p = k - int n + 1; lo = \<lfloor>q / 10 powi p\<rfloor>;
          okdown = in_interval iv (of_int lo * 10 powi p);
          okup = in_interval iv (of_int (lo + 1) * 10 powi p)
      in if okdown \<and> okup then (rhe (q / 10 powi p), p)
         else if okdown then (lo, p)
         else if okup then (lo + 1, p)
         else shortest (pred_numeral v) (Suc n) iv q k)"
  by (simp add: numeral_eq_Suc)

section \<open>Comparisons with NaN\<close>

lemma fle_NaN [simp]: "fle x NaN = False"
  by (cases x) simp_all

lemma flt_NaN [simp]: "flt x NaN = False"
  by (cases x) simp_all

lemma Abs_NaN: "Abs NaN = NaN"
  by (simp add: Abs_def)

lemma Area_Abs_NaN: "Area_Abs NaN = NaN"
  by (simp add: Area_Abs_def)

lemma format_loop_NaN: "format_loop NaN us = None"
  by (induction us) (simp_all add: Abs_NaN fge_def)

lemma Area_format_loop_NaN: "Area_format_loop NaN us = None"
  by (induction us) (simp_all add: Area_Abs_NaN fge_def)

section \<open>Multiplication and division by one\<close>

lemma valid_one: "valid (Fin s 1)"
  using valid_fl[of 1 s] by (simp add: fl_1)

lemma fmul_one_right: "valid x \<Longrightarrow> fmul x (Fin False 1) = x"
  by (cases x) (simp_all add: fl_valid)

lemma fdiv_one_right: "valid x \<Longrightarrow> fdiv x (Fin False 1) = x"
  by (cases x) (simp_all add: fl_valid)

lemma MeterPerSecond_eq: "MeterPerSecond = Fin False 1"
  by (simp add: MeterPerSecond_def f64_const_def fl_1)

lemma Kelvin_eq: "Kelvin = Fin False 1"
  by (simp add: Kelvin_def f64_const_def fl_1)

lemma valid_cert:
  assumes "0 < m" "m \<le> 2 ^ 53" "- 1074 \<le> e" "2 ^ 52 \<le> m \<or> e = - 1074"
    and "q = of_int m * 2 powi e" "q < 2 ^ 1024"
  shows "valid (Fin s q)"
  using round_mag_repr[OF assms(1-4)] assms(1,5,6) by simp

lemma valid_zero: "valid (Fin s 0)"
  by (simp add: round_mag_def)

section \<open>The order on float64, and the loop of format as a search\<close>

lemma flt_not_fle: "flt a b \<Longrightarrow> \<not> fle b a"
  by (cases a; cases b) auto

lemma not_fle_flt: "a \<noteq> NaN \<Longrightarrow> b \<noteq> NaN \<Longrightarrow> \<not> fle b a \<Longrightarrow> flt a b"
  by (cases a; cases b) (auto split: if_splits)

lemma fle_trans: "fle a b \<Longrightarrow> fle b c \<Longrightarrow> fle a c"
  by (cases a; cases b; cases c) (auto split: if_splits)

lemma flt_imp_fle: "flt a b \<Longrightarrow> fle a b"
  by (cases a; cases b) auto

lemma fle_refl: "a \<noteq> NaN \<Longrightarrow> fle a a"
  by (cases a) auto

lemma format_loop_find:
  "format_loop l us =
     map_option (\<lambda>u. (fmt_v (fdiv l (u_length u)), u)) (find (\<lambda>u. fge (Abs l) (u_length u)) us)"
  by (induction us) simp_all

lemma find_sorted_first:
  assumes "sorted_wrt R xs" "find P xs = Some u" "v \<in> set xs" "P v"
  shows "u = v \<or> R u v"
  using assms
proof (induction xs)
  case Nil
  thus ?case by simp
next
  case (Cons x xs)
  show ?case
  proof (cases "P x")
    case True
    hence "u = x" using Cons.prems(2) by simp
    thus ?thesis using Cons.prems(1,3) by auto
  next
    case False
    hence "find P xs = Some u" "v \<in> set xs" using Cons.prems by auto
    thus ?thesis using Cons.IH Cons.prems(1,4) by simp
  qed
qed

lemma thresholds_lengths:
  "map u_length unitThresholds = [Kilometer, Meter, Centimeter, Millimeter, Micrometer]"
  by (simp add: unitThresholds_def kmDesc_def meterDesc_def)

lemma thresholds_sorted:
  "sorted_wrt (\<lambda>u v. fgt (u_length u) (u_length v)) unitThresholds"
  by (simp add: unitThresholds_def kmDesc_def meterDesc_def fgt_def Kilometer_eq Meter_eq
      Centimeter_eq Millimeter_eq Micrometer_eq sval_def)

lemma thresholds_not_NaN: "u \<in> set unitThresholds \<Longrightarrow> u_length u \<noteq> NaN"
  by (auto simp: unitThresholds_def kmDesc_def meterDesc_def Kilometer_eq Meter_eq
      Centimeter_eq Millimeter_eq Micrometer_eq)

lemma thresholds_ge_um: "u \<in> set unitThresholds \<Longrightarrow> fle Micrometer (u_length u)"
  by (auto simp: unitThresholds_def kmDesc_def meterDesc_def Kilometer_eq Meter_eq
      Centimeter_eq Millimeter_eq Micrometer_eq sval_def)

lemma um_in_thresholds: "\<exists>u \<in> set unitThresholds. u_length u = Micrometer"
  by (simp add: unitThresholds_def)

section \<open>Bounds of the rounding; formatting a negated length\<close>

lemma round_mag_le_p2:
  assumes "0 \<le> q" "q \<le> 2 powi k" "- 1074 \<le> k"
  shows "round_mag q \<le> 2 powi k"
proof (cases "q = 0")
  case True
  thus ?thesis by (simp add: round_mag_def)
next
  case False
  hence qpos: "0 < q" using assms(1) by simp
  define e where "e = expo q"
  have "2 powi (ilog 2 q) \<le> q" using ilog2_bounds[OF qpos] by simp
  hence "(2::rat) powi (ilog 2 q) \<le> 2 powi k" using assms(2) by (rule order_trans)
  hence "ilog 2 q \<le> k" by (simp only: p2_le_iff)
  hence ek: "e \<le> k" using assms(3) by (simp add: e_def expo_def)
  define n where "n = nat (k - e)"
  have kn: "k = e + int n" using ek by (simp add: n_def)
  have p: "(2::rat) powi k = of_int (2 ^ n) * 2 powi e"
    unfolding kn by (simp add: p2_add mult.commute)
  have "q / 2 powi e \<le> of_int (2 ^ n)"
    using assms(2) unfolding p by (simp add: field_simps)
  hence "rhe (q / 2 powi e) \<le> 2 ^ n" by (rule rhe_le)
  hence "rat_of_int (rhe (q / 2 powi e)) \<le> rat_of_int (2 ^ n)" by (simp only: of_int_le_iff)
  hence "rat_of_int (rhe (q / 2 powi e)) * 2 powi e \<le> rat_of_int (2 ^ n) * 2 powi e"
    by (rule mult_right_mono) simp
  thus ?thesis using False unfolding p by (simp add: round_mag_def e_def)
qed

lemma fl_finite:
  assumes "0 \<le> q" "q \<le> 2 powi k" "- 1074 \<le> k" "k < 1024"
  shows "fl s q = Fin s (round_mag q)"
proof -
  have "round_mag q \<le> 2 powi k" using assms(1-3) by (rule round_mag_le_p2)
  also have "(2::rat) powi k < 2 powi 1024" using assms(4) by (simp only: p2_less_iff)
  finally have "round_mag q < 2 ^ 1024" by simp
  thus ?thesis by (simp add: fl_def Let_def)
qed

lemma fmt_g_neg: "fmt_g (Fin True q) = ''-'' @ fmt_g (Fin False q)"
  by simp

lemma Abs_Fin_False: "0 \<le> q \<Longrightarrow> Abs (Fin False q) = Fin False q"
  by (simp add: Abs_def zero_eq sval_def)

lemma fge_Abs_Fin_True: "0 \<le> q \<Longrightarrow> fge (Abs (Fin True q)) t = fge (Fin False q) t"
  by (cases t) (auto simp: Abs_def zero_eq sval_def fge_def)

lemma fdiv_threshold:
  assumes "0 \<le> q" "q < 2 ^ 20" "u \<in> set unitThresholds"
  shows "fdiv (Fin s q) (u_length u) = Fin s (round_mag (q / fval (u_length u)))"
proof -
  have "is_finite (u_length u) \<and> \<not> signbit (u_length u) \<and> 1 / 2 ^ 20 \<le> fval (u_length u)"
    using assms(3)
    by (auto simp: unitThresholds_def kmDesc_def meterDesc_def Kilometer_eq Meter_eq
        Centimeter_eq Millimeter_eq Micrometer_eq sval_def)
  then obtain r where r: "u_length u = Fin False r" "1 / 2 ^ 20 \<le> r"
    by (cases "u_length u") (auto simp: sval_def)
  have rpos: "0 < r" using r(2) by (rule less_le_trans[rotated]) simp
  have "q / r \<le> q * 2 ^ 20"
  proof -
    have "q / r \<le> q / (1 / 2 ^ 20)" using r(2) assms(1) by (intro divide_left_mono) simp_all
    thus ?thesis by simp
  qed
  also have "\<dots> \<le> 2 ^ 20 * 2 ^ 20" using assms(2) by simp
  finally have le: "q / r \<le> 2 powi 40" by simp
  have ge: "0 \<le> q / r" using assms(1) rpos by simp
  have "fl s (q / r) = Fin s (round_mag (q / r))"
    by (rule fl_finite[OF ge le]) simp_all
  thus ?thesis using rpos by (simp add: r(1) sval_def)
qed

lemma format_loop_neg:
  assumes "0 \<le> q" "q < 2 ^ 20" "set us \<subseteq> set unitThresholds"
  shows "format_loop (Fin True q) us =
     map_option (\<lambda>(v, u). (''-'' @ v, u)) (format_loop (Fin False q) us)"
  using assms(3)
proof (induction us)
  case Nil
  show ?case by simp
next
  case (Cons u us)
  have u: "u \<in> set unitThresholds" using Cons.prems by simp
  show ?case
    using Cons assms(1)
    by (simp add: fge_Abs_Fin_True Abs_Fin_False fdiv_threshold[OF assms(1,2) u] fmt_v_def)
qed

lemma format_neg:
  assumes "valid (Fin False q)"
  shows "format (Fin True q) = (''-'' @ fst (format (Fin False q)), snd (format (Fin False q)))"
proof -
  have q0: "0 \<le> q" and v: "fl True q = Fin True q" "fl False q = Fin False q"
    using assms by (simp_all add: fl_def Let_def)
  have m: "fdiv (Fin True q) (u_length meterDesc) = Fin True q"
    "fdiv (Fin False q) (u_length meterDesc) = Fin False q"
    using v by (simp_all add: meterDesc_def Meter_eq)
  show ?thesis
  proof (cases "fge (Fin False q) (fmul (f64_const 1000) (u_length kmDesc))")
    case True
    thus ?thesis using q0 by (simp add: format_def fge_Abs_Fin_True Abs_Fin_False m)
  next
    case False
    hence "q < 1000000" by (simp add: bypass_eq fge_def sval_def)
    hence "q < 2 ^ 20" by simp
    hence "format_loop (Fin True q) unitThresholds =
      map_option (\<lambda>(v, u). (''-'' @ v, u)) (format_loop (Fin False q) unitThresholds)"
      using q0 by (intro format_loop_neg) simp_all
    thus ?thesis using False q0
      by (simp add: format_def fge_Abs_Fin_True Abs_Fin_False m split: option.splits)
  qed
qed

lemma bypass_eq2: "fmul (f64_const 1000) (Fin False 1000) = Fin False 1000000"
  using bypass_eq by (simp add: kmDesc_def Kilometer_eq)

section \<open>Evaluation of format at the literal cases\<close>

lemma rnd_1e6: "fl s (1000000) = Fin s (1000000)"
  by (rule fl_cert[where k = "19" and m = 8589934592000000 and e = "- 33"]) simp_all

lemma in_1e6: "fmul (f64_const (1000000)) Meter = Fin False (1000000)"
  using fl_fl[OF _ rnd_1e6[of False], of False]
  by (simp add: f64_const_def Meter_eq rnd_1e6)

lemma quo_1e6: "fl s (1000000) = Fin s (1000000)"
  using fl_fl[OF _ rnd_1e6[of False], of s] by simp

lemma dec_1e6: "decimal (1000000) = (''1'', 7)"
proof -
  have e: "expo (1000000) = - 33" by (rule expo_normal) simp_all
  have k: "ilog 10 (1000000) = 6" by (rule ilog10_unique) simp_all
  have iv: "f64_interval (1000000) = (17179869183999999 / 17179869184, 17179869184000001 / 17179869184, True)"
    by (simp add: f64_interval_def e Let_def floor_num)
  have s: "shortest 16 1 (f64_interval (1000000)) (1000000) (6) = (1, 6)"
    unfolding iv by (simp add: shortest_numeral Let_def floor_num floor_one_num rhe_def)
  show ?thesis
    unfolding decimal_def k s by (simp add: digits.simps digit_char_def strip_zeros_def)
qed

lemma fmt_1e6: "fmt_mag (1000000) = ''1e+06''"
  by (simp add: fmt_mag_def dec_1e6 fmtE_def digits.simps digit_char_def)

lemma format_1e6: "format (Fin False (1000000)) = (''1e+06'', meterDesc)"
  by (simp add: format_def Abs_def zero_eq bypass_eq2 fge_def sval_def unitThresholds_def kmDesc_def meterDesc_def Kilometer_eq Meter_eq Centimeter_eq Millimeter_eq Micrometer_eq fmt_v_def quo_1e6 fmt_1e6)

lemma rnd_999000: "fl s (999000) = Fin s (999000)"
  by (rule fl_cert[where k = "19" and m = 8581344657408000 and e = "- 33"]) simp_all

lemma in_999000: "fmul (f64_const (999000)) Meter = Fin False (999000)"
  using fl_fl[OF _ rnd_999000[of False], of False]
  by (simp add: f64_const_def Meter_eq rnd_999000)

lemma quo_999000: "fl s (999) = Fin s (999)"
  by (rule fl_cert[where k = "9" and m = 8787296929185792 and e = "- 43"]) simp_all

lemma dec_999000: "decimal (999) = (''999'', 3)"
proof -
  have e: "expo (999) = - 43" by (rule expo_normal) simp_all
  have k: "ilog 10 (999) = 2" by (rule ilog10_unique) simp_all
  have iv: "f64_interval (999) = (17574593858371583 / 17592186044416, 17574593858371585 / 17592186044416, True)"
    by (simp add: f64_interval_def e Let_def floor_num)
  have s: "shortest 16 1 (f64_interval (999)) (999) (2) = (999, 0)"
    unfolding iv by (simp add: shortest_numeral Let_def floor_num floor_one_num rhe_def)
  show ?thesis
    unfolding decimal_def k s by (simp add: digits.simps digit_char_def strip_zeros_def)
qed

lemma fmt_999000: "fmt_mag (999) = ''999''"
  by (simp add: fmt_mag_def dec_999000 fmtF_def digits.simps digit_char_def)

lemma format_999000: "format (Fin False (999000)) = (''999'', kmDesc)"
  by (simp add: format_def Abs_def zero_eq bypass_eq2 fge_def sval_def unitThresholds_def kmDesc_def meterDesc_def Kilometer_eq Meter_eq Centimeter_eq Millimeter_eq Micrometer_eq fmt_v_def quo_999000 fmt_999000)

lemma rnd_1000: "fl s (1000) = Fin s (1000)"
  by (rule fl_cert[where k = "9" and m = 8796093022208000 and e = "- 43"]) simp_all

lemma in_1000: "fmul (f64_const (1000)) Meter = Fin False (1000)"
  using fl_fl[OF _ rnd_1000[of False], of False]
  by (simp add: f64_const_def Meter_eq rnd_1000)

lemma quo_1000: "fl s (1) = Fin s (1)"
  by (rule fl_cert[where k = "0" and m = 4503599627370496 and e = "- 52"]) simp_all

lemma dec_1000: "decimal (1) = (''1'', 1)"
proof -
  have e: "expo (1) = - 52" by (rule expo_normal) simp_all
  have k: "ilog 10 (1) = 0" by (rule ilog10_unique) simp_all
  have iv: "f64_interval (1) = (18014398509481983 / 18014398509481984, 9007199254740993 / 9007199254740992, True)"
    by (simp add: f64_interval_def e Let_def floor_num)
  have s: "shortest 16 1 (f64_interval (1)) (1) (0) = (1, 0)"
    unfolding iv by (simp add: shortest_numeral Let_def floor_num floor_one_num rhe_def)
  show ?thesis
    unfolding decimal_def k s by (simp add: digits.simps digit_char_def strip_zeros_def)
qed

lemma fmt_1000: "fmt_mag (1) = ''1''"
  by (simp add: fmt_mag_def dec_1000 fmtF_def digits.simps digit_char_def)

lemma format_1000: "format (Fin False (1000)) = (''1'', kmDesc)"
  by (simp add: format_def Abs_def zero_eq bypass_eq2 fge_def sval_def unitThresholds_def kmDesc_def meterDesc_def Kilometer_eq Meter_eq Centimeter_eq Millimeter_eq Micrometer_eq fmt_v_def quo_1000 fmt_1000)

lemma rnd_99999: "fl s (99999 / 100) = Fin s (4398002530638889 / 4398046511104)"
  by (rule fl_cert[where k = "9" and m = 8796005061277778 and e = "- 43"]) simp_all

lemma in_99999: "fmul (f64_const (99999 / 100)) Meter = Fin False (4398002530638889 / 4398046511104)"
  using fl_fl[OF _ rnd_99999[of False], of False]
  by (simp add: f64_const_def Meter_eq rnd_99999)

lemma quo_99999: "fl s (4398002530638889 / 4398046511104) = Fin s (4398002530638889 / 4398046511104)"
  using fl_fl[OF _ rnd_99999[of False], of s] by simp

lemma dec_99999: "decimal (4398002530638889 / 4398046511104) = (''99999'', 3)"
proof -
  have e: "expo (4398002530638889 / 4398046511104) = - 43" by (rule expo_normal) simp_all
  have k: "ilog 10 (4398002530638889 / 4398046511104) = 2" by (rule ilog10_unique) simp_all
  have iv: "f64_interval (4398002530638889 / 4398046511104) = (17592010122555555 / 17592186044416, 17592010122555557 / 17592186044416, True)"
    by (simp add: f64_interval_def e Let_def floor_num)
  have s: "shortest 16 1 (f64_interval (4398002530638889 / 4398046511104)) (4398002530638889 / 4398046511104) (2) = (99999, - 2)"
    unfolding iv by (simp add: shortest_numeral Let_def floor_num floor_one_num rhe_def)
  show ?thesis
    unfolding decimal_def k s by (simp add: digits.simps digit_char_def strip_zeros_def)
qed

lemma fmt_99999: "fmt_mag (4398002530638889 / 4398046511104) = ''999.99''"
  by (simp add: fmt_mag_def dec_99999 fmtF_def digits.simps digit_char_def)

lemma format_99999: "format (Fin False (4398002530638889 / 4398046511104)) = (''999.99'', meterDesc)"
  by (simp add: format_def Abs_def zero_eq bypass_eq2 fge_def sval_def unitThresholds_def kmDesc_def meterDesc_def Kilometer_eq Meter_eq Centimeter_eq Millimeter_eq Micrometer_eq fmt_v_def quo_99999 fmt_99999)

lemma rnd_1: "fl s (1) = Fin s (1)"
  by (rule fl_cert[where k = "0" and m = 4503599627370496 and e = "- 52"]) simp_all

lemma in_1: "fmul (f64_const (1)) Meter = Fin False (1)"
  using fl_fl[OF _ rnd_1[of False], of False]
  by (simp add: f64_const_def Meter_eq rnd_1)

lemma quo_1: "fl s (1) = Fin s (1)"
  using fl_fl[OF _ rnd_1[of False], of s] by simp

lemma dec_1: "decimal (1) = (''1'', 1)"
proof -
  have e: "expo (1) = - 52" by (rule expo_normal) simp_all
  have k: "ilog 10 (1) = 0" by (rule ilog10_unique) simp_all
  have iv: "f64_interval (1) = (18014398509481983 / 18014398509481984, 9007199254740993 / 9007199254740992, True)"
    by (simp add: f64_interval_def e Let_def floor_num)
  have s: "shortest 16 1 (f64_interval (1)) (1) (0) = (1, 0)"
    unfolding iv by (simp add: shortest_numeral Let_def floor_num floor_one_num rhe_def)
  show ?thesis
    unfolding decimal_def k s by (simp add: digits.simps digit_char_def strip_zeros_def)
qed

lemma fmt_1: "fmt_mag (1) = ''1''"
  by (simp add: fmt_mag_def dec_1 fmtF_def digits.simps digit_char_def)

lemma format_1: "format (Fin False (1)) = (''1'', meterDesc)"
  by (simp add: format_def Abs_def zero_eq bypass_eq2 fge_def sval_def unitThresholds_def kmDesc_def meterDesc_def Kilometer_eq Meter_eq Centimeter_eq Millimeter_eq Micrometer_eq fmt_v_def quo_1 fmt_1)

lemma rnd_998: "fl s (499 / 500) = Fin s (4494592428115755 / 4503599627370496)"
  by (rule fl_cert[where k = "- 1" and m = 8989184856231510 and e = "- 53"]) simp_all

lemma in_998: "fmul (f64_const (499 / 500)) Meter = Fin False (4494592428115755 / 4503599627370496)"
  using fl_fl[OF _ rnd_998[of False], of False]
  by (simp add: f64_const_def Meter_eq rnd_998)

lemma quo_998: "fl s (115061566159763328 / 1152921504606847) = Fin s (7022800668930867 / 70368744177664)"
  by (rule fl_cert[where k = "6" and m = 7022800668930867 and e = "- 46"]) simp_all

lemma dec_998: "decimal (7022800668930867 / 70368744177664) = (''998'', 2)"
proof -
  have e: "expo (7022800668930867 / 70368744177664) = - 46" by (rule expo_normal) simp_all
  have k: "ilog 10 (7022800668930867 / 70368744177664) = 1" by (rule ilog10_unique) simp_all
  have iv: "f64_interval (7022800668930867 / 70368744177664) = (14045601337861733 / 140737488355328, 14045601337861735 / 140737488355328, False)"
    by (simp add: f64_interval_def e Let_def floor_num)
  have s: "shortest 16 1 (f64_interval (7022800668930867 / 70368744177664)) (7022800668930867 / 70368744177664) (1) = (998, - 1)"
    unfolding iv by (simp add: shortest_numeral Let_def floor_num floor_one_num rhe_def)
  show ?thesis
    unfolding decimal_def k s by (simp add: digits.simps digit_char_def strip_zeros_def)
qed

lemma fmt_998: "fmt_mag (7022800668930867 / 70368744177664) = ''99.8''"
  by (simp add: fmt_mag_def dec_998 fmtF_def digits.simps digit_char_def)

lemma format_998: "format (Fin False (4494592428115755 / 4503599627370496)) = (''99.8'', \<lparr>u_length = Centimeter, u_name = ''Centimeter'', u_symbol = ''cm''\<rparr>)"
  by (simp add: format_def Abs_def zero_eq bypass_eq2 fge_def sval_def unitThresholds_def kmDesc_def meterDesc_def Kilometer_eq Meter_eq Centimeter_eq Millimeter_eq Micrometer_eq fmt_v_def quo_998 fmt_998)

lemma rnd_001: "fl s (1 / 100) = Fin s (5764607523034235 / 576460752303423488)"
  by (rule fl_cert[where k = "- 7" and m = 5764607523034235 and e = "- 59"]) simp_all

lemma in_001: "fmul (f64_const (1 / 100)) Meter = Fin False (5764607523034235 / 576460752303423488)"
  using fl_fl[OF _ rnd_001[of False], of False]
  by (simp add: f64_const_def Meter_eq rnd_001)

lemma quo_001: "fl s (1) = Fin s (1)"
  by (rule fl_cert[where k = "0" and m = 4503599627370496 and e = "- 52"]) simp_all

lemma dec_001: "decimal (1) = (''1'', 1)"
proof -
  have e: "expo (1) = - 52" by (rule expo_normal) simp_all
  have k: "ilog 10 (1) = 0" by (rule ilog10_unique) simp_all
  have iv: "f64_interval (1) = (18014398509481983 / 18014398509481984, 9007199254740993 / 9007199254740992, True)"
    by (simp add: f64_interval_def e Let_def floor_num)
  have s: "shortest 16 1 (f64_interval (1)) (1) (0) = (1, 0)"
    unfolding iv by (simp add: shortest_numeral Let_def floor_num floor_one_num rhe_def)
  show ?thesis
    unfolding decimal_def k s by (simp add: digits.simps digit_char_def strip_zeros_def)
qed

lemma fmt_001: "fmt_mag (1) = ''1''"
  by (simp add: fmt_mag_def dec_001 fmtF_def digits.simps digit_char_def)

lemma format_001: "format (Fin False (5764607523034235 / 576460752303423488)) = (''1'', \<lparr>u_length = Centimeter, u_name = ''Centimeter'', u_symbol = ''cm''\<rparr>)"
  by (simp add: format_def Abs_def zero_eq bypass_eq2 fge_def sval_def unitThresholds_def kmDesc_def meterDesc_def Kilometer_eq Meter_eq Centimeter_eq Millimeter_eq Micrometer_eq fmt_v_def quo_001 fmt_001)

lemma rnd_0099: "fl s (99 / 10000) = Fin s (5706961447803893 / 576460752303423488)"
  by (rule fl_cert[where k = "- 7" and m = 5706961447803893 and e = "- 59"]) simp_all

lemma in_0099: "fmul (f64_const (99 / 10000)) Meter = Fin False (5706961447803893 / 576460752303423488)"
  using fl_fl[OF _ rnd_0099[of False], of False]
  by (simp add: f64_const_def Meter_eq rnd_0099)

lemma quo_0099: "fl s (11413922895607786 / 1152921504606847) = Fin s (5573204538870989 / 562949953421312)"
  by (rule fl_cert[where k = "3" and m = 5573204538870989 and e = "- 49"]) simp_all

lemma dec_0099: "decimal (5573204538870989 / 562949953421312) = (''99'', 1)"
proof -
  have e: "expo (5573204538870989 / 562949953421312) = - 49" by (rule expo_normal) simp_all
  have k: "ilog 10 (5573204538870989 / 562949953421312) = 0" by (rule ilog10_unique) simp_all
  have iv: "f64_interval (5573204538870989 / 562949953421312) = (11146409077741977 / 1125899906842624, 11146409077741979 / 1125899906842624, False)"
    by (simp add: f64_interval_def e Let_def floor_num)
  have s: "shortest 16 1 (f64_interval (5573204538870989 / 562949953421312)) (5573204538870989 / 562949953421312) (0) = (99, - 1)"
    unfolding iv by (simp add: shortest_numeral Let_def floor_num floor_one_num rhe_def)
  show ?thesis
    unfolding decimal_def k s by (simp add: digits.simps digit_char_def strip_zeros_def)
qed

lemma fmt_0099: "fmt_mag (5573204538870989 / 562949953421312) = ''9.9''"
  by (simp add: fmt_mag_def dec_0099 fmtF_def digits.simps digit_char_def)

lemma format_0099: "format (Fin False (5706961447803893 / 576460752303423488)) = (''9.9'', \<lparr>u_length = Millimeter, u_name = ''Millimeter'', u_symbol = ''mm''\<rparr>)"
  by (simp add: format_def Abs_def zero_eq bypass_eq2 fge_def sval_def unitThresholds_def kmDesc_def meterDesc_def Kilometer_eq Meter_eq Centimeter_eq Millimeter_eq Micrometer_eq fmt_v_def quo_0099 fmt_0099)

lemma rnd_0001: "fl s (1 / 1000) = Fin s (1152921504606847 / 1152921504606846976)"
  by (rule fl_cert[where k = "- 10" and m = 4611686018427388 and e = "- 62"]) simp_all

lemma in_0001: "fmul (f64_const (1 / 1000)) Meter = Fin False (1152921504606847 / 1152921504606846976)"
  using fl_fl[OF _ rnd_0001[of False], of False]
  by (simp add: f64_const_def Meter_eq rnd_0001)

lemma quo_0001: "fl s (1) = Fin s (1)"
  by (rule fl_cert[where k = "0" and m = 4503599627370496 and e = "- 52"]) simp_all

lemma dec_0001: "decimal (1) = (''1'', 1)"
proof -
  have e: "expo (1) = - 52" by (rule expo_normal) simp_all
  have k: "ilog 10 (1) = 0" by (rule ilog10_unique) simp_all
  have iv: "f64_interval (1) = (18014398509481983 / 18014398509481984, 9007199254740993 / 9007199254740992, True)"
    by (simp add: f64_interval_def e Let_def floor_num)
  have s: "shortest 16 1 (f64_interval (1)) (1) (0) = (1, 0)"
    unfolding iv by (simp add: shortest_numeral Let_def floor_num floor_one_num rhe_def)
  show ?thesis
    unfolding decimal_def k s by (simp add: digits.simps digit_char_def strip_zeros_def)
qed

lemma fmt_0001: "fmt_mag (1) = ''1''"
  by (simp add: fmt_mag_def dec_0001 fmtF_def digits.simps digit_char_def)

lemma format_0001: "format (Fin False (1152921504606847 / 1152921504606846976)) = (''1'', \<lparr>u_length = Millimeter, u_name = ''Millimeter'', u_symbol = ''mm''\<rparr>)"
  by (simp add: format_def Abs_def zero_eq bypass_eq2 fge_def sval_def unitThresholds_def kmDesc_def meterDesc_def Kilometer_eq Meter_eq Centimeter_eq Millimeter_eq Micrometer_eq fmt_v_def quo_0001 fmt_0001)

lemma rnd_9999e4: "fl s (9999 / 10000000) = Fin s (4611224849825545 / 4611686018427387904)"
  by (rule fl_cert[where k = "- 10" and m = 4611224849825545 and e = "- 62"]) simp_all

lemma in_9999e4: "fmul (f64_const (9999 / 10000000)) Meter = Fin False (4611224849825545 / 4611686018427387904)"
  using fl_fl[OF _ rnd_9999e4[of False], of False]
  by (simp add: f64_const_def Meter_eq rnd_9999e4)

lemma quo_9999e4: "fl s (944378849244271616 / 944473296573929) = Fin s (8795213412905779 / 8796093022208)"
  by (rule fl_cert[where k = "9" and m = 8795213412905779 and e = "- 43"]) simp_all

lemma dec_9999e4: "decimal (8795213412905779 / 8796093022208) = (''9999'', 3)"
proof -
  have e: "expo (8795213412905779 / 8796093022208) = - 43" by (rule expo_normal) simp_all
  have k: "ilog 10 (8795213412905779 / 8796093022208) = 2" by (rule ilog10_unique) simp_all
  have iv: "f64_interval (8795213412905779 / 8796093022208) = (17590426825811557 / 17592186044416, 17590426825811559 / 17592186044416, False)"
    by (simp add: f64_interval_def e Let_def floor_num)
  have s: "shortest 16 1 (f64_interval (8795213412905779 / 8796093022208)) (8795213412905779 / 8796093022208) (2) = (9999, - 1)"
    unfolding iv by (simp add: shortest_numeral Let_def floor_num floor_one_num rhe_def)
  show ?thesis
    unfolding decimal_def k s by (simp add: digits.simps digit_char_def strip_zeros_def)
qed

lemma fmt_9999e4: "fmt_mag (8795213412905779 / 8796093022208) = ''999.9''"
  by (simp add: fmt_mag_def dec_9999e4 fmtF_def digits.simps digit_char_def)

lemma format_9999e4: "format (Fin False (4611224849825545 / 4611686018427387904)) = (''999.9'', \<lparr>u_length = Micrometer, u_name = ''Micrometer'', u_symbol = [CHR 0xC2, CHR 0xB5] @ ''m''\<rparr>)"
  by (simp add: format_def Abs_def zero_eq bypass_eq2 fge_def sval_def unitThresholds_def kmDesc_def meterDesc_def Kilometer_eq Meter_eq Centimeter_eq Millimeter_eq Micrometer_eq fmt_v_def quo_9999e4 fmt_9999e4)

lemma rnd_1e_6: "fl s (1 / 1000000) = Fin s (4722366482869645 / 4722366482869645213696)"
  by (rule fl_cert[where k = "- 20" and m = 4722366482869645 and e = "- 72"]) simp_all

lemma in_1e_6: "fmul (f64_const (1 / 1000000)) Meter = Fin False (4722366482869645 / 4722366482869645213696)"
  using fl_fl[OF _ rnd_1e_6[of False], of False]
  by (simp add: f64_const_def Meter_eq rnd_1e_6)

lemma quo_1e_6: "fl s (1) = Fin s (1)"
  by (rule fl_cert[where k = "0" and m = 4503599627370496 and e = "- 52"]) simp_all

lemma dec_1e_6: "decimal (1) = (''1'', 1)"
proof -
  have e: "expo (1) = - 52" by (rule expo_normal) simp_all
  have k: "ilog 10 (1) = 0" by (rule ilog10_unique) simp_all
  have iv: "f64_interval (1) = (18014398509481983 / 18014398509481984, 9007199254740993 / 9007199254740992, True)"
    by (simp add: f64_interval_def e Let_def floor_num)
  have s: "shortest 16 1 (f64_interval (1)) (1) (0) = (1, 0)"
    unfolding iv by (simp add: shortest_numeral Let_def floor_num floor_one_num rhe_def)
  show ?thesis
    unfolding decimal_def k s by (simp add: digits.simps digit_char_def strip_zeros_def)
qed

lemma fmt_1e_6: "fmt_mag (1) = ''1''"
  by (simp add: fmt_mag_def dec_1e_6 fmtF_def digits.simps digit_char_def)

lemma format_1e_6: "format (Fin False (4722366482869645 / 4722366482869645213696)) = (''1'', \<lparr>u_length = Micrometer, u_name = ''Micrometer'', u_symbol = [CHR 0xC2, CHR 0xB5] @ ''m''\<rparr>)"
  by (simp add: format_def Abs_def zero_eq bypass_eq2 fge_def sval_def unitThresholds_def kmDesc_def meterDesc_def Kilometer_eq Meter_eq Centimeter_eq Millimeter_eq Micrometer_eq fmt_v_def quo_1e_6 fmt_1e_6)

lemma rnd_999e_7: "fl s (999 / 1000000000) = Fin s (589705514548347 / 590295810358705651712)"
  by (rule fl_cert[where k = "- 20" and m = 4717644116386776 and e = "- 72"]) simp_all

lemma in_999e_7: "fmul (f64_const (999 / 1000000000)) Meter = Fin False (589705514548347 / 590295810358705651712)"
  using fl_fl[OF _ rnd_999e_7[of False], of False]
  by (simp add: f64_const_def Meter_eq rnd_999e_7)

lemma quo_999e_7: "fl s (589705514548347 / 590295810358705651712) = Fin s (589705514548347 / 590295810358705651712)"
  using fl_fl[OF _ rnd_999e_7[of False], of s] by simp

lemma dec_999e_7: "decimal (589705514548347 / 590295810358705651712) = (''999'', - 6)"
proof -
  have e: "expo (589705514548347 / 590295810358705651712) = - 72" by (rule expo_normal) simp_all
  have k: "ilog 10 (589705514548347 / 590295810358705651712) = - 7" by (rule ilog10_unique) simp_all
  have iv: "f64_interval (589705514548347 / 590295810358705651712) = (9435288232773551 / 9444732965739290427392, 9435288232773553 / 9444732965739290427392, True)"
    by (simp add: f64_interval_def e Let_def floor_num)
  have s: "shortest 16 1 (f64_interval (589705514548347 / 590295810358705651712)) (589705514548347 / 590295810358705651712) (- 7) = (999, - 9)"
    unfolding iv by (simp add: shortest_numeral Let_def floor_num floor_one_num rhe_def)
  show ?thesis
    unfolding decimal_def k s by (simp add: digits.simps digit_char_def strip_zeros_def)
qed

lemma fmt_999e_7: "fmt_mag (589705514548347 / 590295810358705651712) = ''9.99e-07''"
  by (simp add: fmt_mag_def dec_999e_7 fmtE_def digits.simps digit_char_def)

lemma format_999e_7: "format (Fin False (589705514548347 / 590295810358705651712)) = (''9.99e-07'', meterDesc)"
  by (simp add: format_def Abs_def zero_eq bypass_eq2 fge_def sval_def unitThresholds_def kmDesc_def meterDesc_def Kilometer_eq Meter_eq Centimeter_eq Millimeter_eq Micrometer_eq fmt_v_def quo_999e_7 fmt_999e_7)

section \<open>Evaluation at further inputs\<close>

lemma valid_998: "valid (Fin s (4494592428115755 / 4503599627370496))"
  by (rule valid_cert[where m = 8989184856231510 and e = "- 53"]) simp_all

lemma valid_c: "valid (Fin s (299792458))"
  by (rule valid_cert[where m = 5029682823036928 and e = "- 24"]) simp_all

lemma valid_t: "valid (Fin s (2587370762482483 / 8796093022208))"
  by (rule valid_cert[where m = 5174741524964966 and e = "- 44"]) simp_all

lemma dec_c: "decimal (299792458) = (''299792458'', 9)"
proof -
  have e: "expo (299792458) = - 24" by (rule expo_normal) simp_all
  have k: "ilog 10 (299792458) = 8" by (rule ilog10_unique) simp_all
  have iv: "f64_interval (299792458) = (10059365646073855 / 33554432, 10059365646073857 / 33554432, True)"
    by (simp add: f64_interval_def e Let_def floor_num)
  have s: "shortest 16 1 (f64_interval (299792458)) (299792458) (8) = (299792458, 0)"
    unfolding iv by (simp add: shortest_numeral Let_def floor_num floor_one_num rhe_def)
  show ?thesis
    unfolding decimal_def k s by (simp add: digits.simps digit_char_def strip_zeros_def)
qed

lemma fmt_c: "fmt_mag (299792458) = ''2.99792458e+08''"
  by (simp add: fmt_mag_def dec_c fmtE_def digits.simps digit_char_def)

lemma dec_t: "decimal (2587370762482483 / 8796093022208) = (''29415'', 3)"
proof -
  have e: "expo (2587370762482483 / 8796093022208) = - 44" by (rule expo_normal) simp_all
  have k: "ilog 10 (2587370762482483 / 8796093022208) = 2" by (rule ilog10_unique) simp_all
  have iv: "f64_interval (2587370762482483 / 8796093022208) = (10349483049929931 / 35184372088832, 10349483049929933 / 35184372088832, True)"
    by (simp add: f64_interval_def e Let_def floor_num)
  have s: "shortest 16 1 (f64_interval (2587370762482483 / 8796093022208)) (2587370762482483 / 8796093022208) (2) = (29415, - 2)"
    unfolding iv by (simp add: shortest_numeral Let_def floor_num floor_one_num rhe_def)
  show ?thesis
    unfolding decimal_def k s by (simp add: digits.simps digit_char_def strip_zeros_def)
qed

lemma fmt_t: "fmt_mag (2587370762482483 / 8796093022208) = ''294.15''"
  by (simp add: fmt_mag_def dec_t fmtF_def digits.simps digit_char_def)

lemma fl_1e9: "fl s (1000000000) = Fin s (1000000000)"
  by (rule fl_cert[where k = "29" and m = 8388608000000000 and e = "- 23"]) simp_all

lemma dec_2e12: "decimal (2000000000000) = (''2'', 13)"
proof -
  have e: "expo (2000000000000) = - 12" by (rule expo_normal) simp_all
  have k: "ilog 10 (2000000000000) = 12" by (rule ilog10_unique) simp_all
  have iv: "f64_interval (2000000000000) = (16383999999999999 / 8192, 16384000000000001 / 8192, True)"
    by (simp add: f64_interval_def e Let_def floor_num)
  have s: "shortest 16 1 (f64_interval (2000000000000)) (2000000000000) (12) = (2, 12)"
    unfolding iv by (simp add: shortest_numeral Let_def floor_num floor_one_num rhe_def)
  show ?thesis
    unfolding decimal_def k s by (simp add: digits.simps digit_char_def strip_zeros_def)
qed

lemma fmt_2e12: "fmt_mag (2000000000000) = ''2e+12''"
  by (simp add: fmt_mag_def dec_2e12 fmtE_def digits.simps digit_char_def)

section \<open>The temperature constants\<close>

lemma fl_59: "fl s (5 / 9) = Fin s (2501999792983609 / 4503599627370496)"
  by (rule fl_cert[where k = "- 1" and m = 5003999585967218 and e = "- 53"]) simp_all

lemma fl_27315: "fl s (5463 / 20) = Fin s (2402652809016115 / 8796093022208)"
  by (rule fl_cert[where k = "8" and m = 4805305618032230 and e = "- 44"]) simp_all

lemma fl_45967: "fl s (45967 / 100) = Fin s (8086600159036703 / 17592186044416)"
  by (rule fl_cert[where k = "8" and m = 8086600159036703 and e = "- 44"]) simp_all

lemma fl_f0: "fl s (20232671923851050522195708401127 / 79228162514264337593543950336) = Fin s (8985111287818559 / 35184372088832)"
  by (rule fl_cert[where k = "7" and m = 8985111287818559 and e = "- 45"]) simp_all

lemma fl_f0_div: "fl s (1150094244840775552 / 2501999792983609) = Fin s (8086600159036703 / 17592186044416)"
  by (rule fl_cert[where k = "8" and m = 8086600159036703 and e = "- 44"]) simp_all

lemma Rankine_eq: "Rankine = Fin False (2501999792983609 / 4503599627370496)"
  using fl_fl[OF _ fl_59[of False], of False]
  by (simp add: Rankine_def f64_const_def Kelvin_eq fl_59)

lemma celsius0_eq: "celsius0 = Fin False (2402652809016115 / 8796093022208)"
  using fl_fl[OF _ fl_27315[of False], of False]
  by (simp add: celsius0_def f64_const_def Kelvin_eq fl_27315)

lemma fahrenheit0_eq: "fahrenheit0 = Fin False (8985111287818559 / 35184372088832)"
  by (simp add: fahrenheit0_def f64_const_def Rankine_eq fl_45967 fl_f0)

lemma fl_c0: "fl s (2402652809016115 / 8796093022208) = Fin s (2402652809016115 / 8796093022208)"
  using fl_fl[OF _ fl_27315[of False], of s] by simp

lemma fl_f0_self: "fl s (8985111287818559 / 35184372088832) = Fin s (8985111287818559 / 35184372088832)"
  using fl_fl[OF _ fl_f0[of False], of s] by simp

lemma zero_kelvin: "fmul (f64_const 0) Kelvin = Fin False 0"
  by (simp add: f64_const_def Kelvin_eq)

section \<open>Durations, and the bypass of Area\<close>

lemma valid_1e6: "valid (Fin s (1000000))"
  by (rule valid_cert[where m = 8589934592000000 and e = "- 33"]) simp_all

lemma round_mag_zero [simp]: "round_mag 0 = 0"
  by (simp add: round_mag_def)

lemma valid_fadd: "valid (fadd a b)"
  by (cases a; cases b) (simp_all add: Let_def valid_fl)

lemma valid_fdiv: "valid a \<Longrightarrow> valid b \<Longrightarrow> valid (fdiv a b)"
  by (cases a; cases b) (simp_all add: valid_fl)

lemma valid_Seconds: "valid (Seconds d)"
  by (simp add: Seconds_def Let_def valid_fadd)

lemma Seconds_zero: "Seconds 0 = Fin False 0"
  by (simp add: Seconds_def Let_def f64_of_int_def f64_const_def fl_1e9 signed_divide_int_def
      signed_modulo_int_def sval_def)

lemma area_bypass_eq2: "fmul (f64_const 1000000) (Fin False 1000000) = Fin False 1000000000000"
  using area_bypass_eq by (simp add: squareKmDesc_def SquareKilometer_eq)

lemma Area_format_1e12:
  "Area_format (Fin False 1000000000000) = (''1e+06'', squareKmDesc)"
  by (simp add: Area_format_def Area_Abs_def zero_eq sval_def fgt_def fge_def area_bypass_eq2
      squareKmDesc_def SquareKilometer_eq areaUnitThresholds_def fmt_v_def fl_1e6 fmt_1e6)

lemma Area_format_2e12:
  "Area_format (Fin False 2000000000000) = (''2e+12'', squareMeterDesc)"
  by (simp add: Area_format_def Area_Abs_def zero_eq sval_def fgt_def area_bypass_eq2
      squareKmDesc_def SquareKilometer_eq SquareMeters_def fmt_2e12)

section \<open>The error of one rounding and of a round trip through a scale unit\<close>

lemma round_mag_error:
  assumes "0 < q"
  shows "\<bar>round_mag q - q\<bar> \<le> 2 powi (expo q - 1)"
proof -
  define e where "e = expo q"
  define y where "y = q / 2 powi e"
  have q: "q = y * 2 powi e" by (simp add: y_def)
  have r: "round_mag q = of_int (rhe y) * 2 powi e"
    using assms by (simp add: round_mag_def e_def y_def)
  have "y * 2 powi e = q" by (simp add: y_def)
  hence "round_mag q - q = (of_int (rhe y) - y) * 2 powi e"
    unfolding r by (simp add: left_diff_distrib)
  hence "\<bar>round_mag q - q\<bar> = \<bar>of_int (rhe y) - y\<bar> * 2 powi e"
    by (simp add: abs_mult)
  also have "\<dots> \<le> (1 / 2) * 2 powi e"
    by (rule mult_right_mono[OF rhe_error]) simp
  also have "\<dots> = 2 powi (e - 1)"
    by (simp add: power_int_diff)
  finally show ?thesis by (simp add: e_def)
qed

lemma round_mag_rel_error:
  assumes "2 powi (- 1023) \<le> q"
  shows "\<bar>round_mag q - q\<bar> \<le> q / 2 ^ 52"
proof -
  have qpos: "0 < q" by (rule less_le_trans[OF _ assms]) simp
  define k where "k = ilog 2 q"
  have b: "2 powi k \<le> q" "q < 2 powi (k + 1)"
    using ilog2_bounds[OF qpos] by (simp_all add: k_def)
  have "(2::rat) powi (- 1023) < 2 powi (k + 1)" by (rule le_less_trans[OF assms b(2)])
  hence "- 1023 < k + 1" by (simp only: p2_less_iff)
  hence k: "- 1023 \<le> k" by simp
  hence "expo q - 1 \<le> k - 52" by (simp add: expo_def k_def)
  hence "(2::rat) powi (expo q - 1) \<le> 2 powi (k - 52)" by simp
  also have "\<dots> = 2 powi k / 2 ^ 52" by (simp add: power_int_diff)
  also have "\<dots> \<le> q / 2 ^ 52" using b(1) by (simp add: divide_right_mono)
  finally show ?thesis using round_mag_error[OF qpos] by simp
qed

lemma round_mag_rel_error_normal:
  assumes "2 powi (- 1022) \<le> q"
  shows "\<bar>round_mag q - q\<bar> \<le> q / 2 ^ 53"
proof -
  have qpos: "0 < q" by (rule less_le_trans[OF _ assms]) simp
  define k where "k = ilog 2 q"
  have b: "2 powi k \<le> q" "q < 2 powi (k + 1)"
    using ilog2_bounds[OF qpos] by (simp_all add: k_def)
  have "(2::rat) powi (- 1022) < 2 powi (k + 1)" by (rule le_less_trans[OF assms b(2)])
  hence "- 1022 < k + 1" by (simp only: p2_less_iff)
  hence k: "- 1022 \<le> k" by simp
  hence "expo q - 1 = k - 53" by (simp add: expo_def k_def)
  hence "(2::rat) powi (expo q - 1) = 2 powi (k - 53)" by (simp only:)
  also have "\<dots> = 2 powi k / 2 ^ 53" by (simp add: power_int_diff)
  also have "\<dots> \<le> q / 2 ^ 53" using b(1) by (simp add: divide_right_mono)
  finally show ?thesis using round_mag_error[OF qpos] by simp
qed

lemma round_trip_mag:
  assumes "0 < u" "2 powi (- 1022) \<le> x" "2 powi (- 1022) \<le> x * u"
  shows "\<bar>round_mag (round_mag (x * u) / u) - x\<bar> \<le> x / 10 ^ 15"
proof -
  have xpos: "0 < x" by (rule less_le_trans[OF _ assms(2)]) simp
  define y where "y = round_mag (x * u)"
  define w where "w = y / u"
  have e1: "\<bar>y - x * u\<bar> \<le> x * u / 2 ^ 53"
    unfolding y_def by (rule round_mag_rel_error_normal[OF assms(3)])
  have "\<bar>w - x\<bar> = \<bar>y - x * u\<bar> / u"
  proof -
    have "w - x = (y - x * u) / u" using assms(1) by (simp add: w_def field_simps)
    thus ?thesis using assms(1) by (simp add: abs_divide)
  qed
  also have "\<dots> \<le> (x * u / 2 ^ 53) / u"
    using assms(1) by (intro divide_right_mono[OF e1]) simp
  also have "\<dots> = x / 2 ^ 53" using assms(1) by simp
  finally have e1': "\<bar>w - x\<bar> \<le> x / 2 ^ 53" .
  hence wl: "x - x / 2 ^ 53 \<le> w" and wu: "w \<le> x + x / 2 ^ 53" by linarith+
  have "2 powi (- 1023) \<le> x / 2"
  proof -
    have "(2::rat) powi (- 1023) = 2 powi (- 1022) / 2" by (simp add: power_int_minus_divide)
    also have "\<dots> \<le> x / 2" using assms(2) by (simp add: divide_right_mono)
    finally show ?thesis .
  qed
  also have "x / 2 \<le> x - x / 2 ^ 53" using xpos by simp
  also note wl
  finally have wn: "2 powi (- 1023) \<le> w" .
  have e2: "\<bar>round_mag w - w\<bar> \<le> w / 2 ^ 52" by (rule round_mag_rel_error[OF wn])
  have "\<bar>round_mag w - x\<bar> \<le> \<bar>round_mag w - w\<bar> + \<bar>w - x\<bar>" by simp
  also have "\<dots> \<le> w / 2 ^ 52 + x / 2 ^ 53" using e2 e1' by simp
  also have "\<dots> \<le> (x + x / 2 ^ 53) / 2 ^ 52 + x / 2 ^ 53"
    using wu by (simp add: divide_right_mono)
  also have "\<dots> \<le> x / 10 ^ 15" using xpos by simp
  finally show ?thesis by (simp add: y_def w_def)
qed

section \<open>The values of the remaining unit constants\<close>

lemma fl_3048: "fl s (381 / 1250) = Fin s (5490788665690109 / 18014398509481984)"
  by (rule fl_cert[where k = "- 2" and m = 5490788665690109 and e = "- 54"]) simp_all

lemma fl_5280: "fl s (5280) = Fin s (5280)"
  by (rule fl_cert[where k = "12" and m = 5805421394657280 and e = "- 40"]) simp_all

lemma fl_12: "fl s (12) = Fin s (12)"
  by (rule fl_cert[where k = "3" and m = 6755399441055744 and e = "- 49"]) simp_all

lemma fl_1852: "fl s (1852) = Fin s (1852)"
  by (rule fl_cert[where k = "10" and m = 8145182138564608 and e = "- 42"]) simp_all

lemma fl_mile: "fl s (905980129838867985 / 562949953421312) = Fin s (1769492441091539 / 1099511627776)"
  by (rule fl_cert[where k = "10" and m = 7077969764366156 and e = "- 42"]) simp_all

lemma fl_inch: "fl s (5490788665690109 / 216172782113783808) = Fin s (7321051554253479 / 288230376151711744)"
  by (rule fl_cert[where k = "- 6" and m = 7321051554253479 and e = "- 58"]) simp_all

lemma fl_1e4: "fl s (10000) = Fin s (10000)"
  by (rule fl_cert[where k = "13" and m = 5497558138880000 and e = "- 39"]) simp_all

lemma fl_sqcm: "fl s (1 / 10000) = Fin s (7378697629483821 / 73786976294838206464)"
  by (rule fl_cert[where k = "- 14" and m = 7378697629483821 and e = "- 66"]) simp_all

lemma fl_sqfoot: "fl s (145161 / 1562500) = Fin s (6694369541209381 / 72057594037927936)"
  by (rule fl_cert[where k = "- 4" and m = 6694369541209381 and e = "- 56"]) simp_all

lemma fl_5280sq: "fl s (27878400) = Fin s (27878400)"
  by (rule fl_cert[where k = "24" and m = 7483551016550400 and e = "- 28"]) simp_all

lemma fl_43560: "fl s (43560) = Fin s (43560)"
  by (rule fl_cert[where k = "15" and m = 5986840813240320 and e = "- 37"]) simp_all

lemma fl_144: "fl s (144) = Fin s (144)"
  by (rule fl_cert[where k = "7" and m = 5066549580791808 and e = "- 45"]) simp_all

lemma fl_sqmile: "fl s (182254210759425397725 / 70368744177664) = Fin s (1390489278865245 / 536870912)"
  by (rule fl_cert[where k = "21" and m = 5561957115460980 and e = "- 31"]) simp_all

lemma fl_acre: "fl s (36450842151885079545 / 9007199254740992) = Fin s (278097855773049 / 68719476736)"
  by (rule fl_cert[where k = "11" and m = 8899131384737568 and e = "- 41"]) simp_all

lemma fl_sqinch: "fl s (6694369541209381 / 10376293541461622784) = Fin s (1487637675824307 / 2305843009213693952)"
  by (rule fl_cert[where k = "- 11" and m = 5950550703297228 and e = "- 63"]) simp_all

lemma fl_3600: "fl s (3600) = Fin s (3600)"
  by (rule fl_cert[where k = "11" and m = 7916483719987200 and e = "- 41"]) simp_all

lemma fl_kph: "fl s (5 / 18) = Fin s (2501999792983609 / 9007199254740992)"
  by (rule fl_cert[where k = "- 2" and m = 5003999585967218 and e = "- 54"]) simp_all

lemma fl_5280fps: "fl s (905980129838867985 / 562949953421312) = Fin s (1769492441091539 / 1099511627776)"
  by (rule fl_cert[where k = "10" and m = 7077969764366156 and e = "- 42"]) simp_all

lemma fl_mph: "fl s (1769492441091539 / 3958241859993600) = Fin s (4026578354839413 / 9007199254740992)"
  by (rule fl_cert[where k = "- 2" and m = 8053156709678826 and e = "- 54"]) simp_all

lemma fl_nmkm: "fl s (463 / 250) = Fin s (8340666509890159 / 4503599627370496)"
  by (rule fl_cert[where k = "0" and m = 8340666509890159 and e = "- 52"]) simp_all

lemma fl_knot: "fl s (20868345881090498405973477403831 / 40564819207303340847894502572032) = Fin s (1158425904151411 / 2251799813685248)"
  by (rule fl_cert[where k = "- 1" and m = 4633703616605644 and e = "- 53"]) simp_all

lemma fl_foot_self: "fl s (5490788665690109 / 18014398509481984) = Fin s (5490788665690109 / 18014398509481984)"
  using fl_fl[OF _ fl_3048[of False], of s] by simp

lemma fl_sqfoot_self: "fl s (6694369541209381 / 72057594037927936) = Fin s (6694369541209381 / 72057594037927936)"
  using fl_fl[OF _ fl_sqfoot[of False], of s] by simp

lemma fl_sqcm_self: "fl s (7378697629483821 / 73786976294838206464) = Fin s (7378697629483821 / 73786976294838206464)"
  using fl_fl[OF _ fl_sqcm[of False], of s] by simp

lemma fl_sqmm_self: "fl s (4722366482869645 / 4722366482869645213696) = Fin s (4722366482869645 / 4722366482869645213696)"
  using fl_fl[OF _ fl_um[of False], of s] by simp

lemma fl_mile_foot: "fl s (28991364154843774976 / 5490788665690109) = Fin s (5280)"
  by (rule fl_cert[where k = "12" and m = 5805421394657280 and e = "- 40"]) simp_all

lemma Foot_eq: "Foot = Fin False (5490788665690109 / 18014398509481984)"
  by (simp add: Foot_def f64_const_def Meter_eq fl_3048 fl_foot_self)

lemma Mile_eq: "Mile = Fin False (1769492441091539 / 1099511627776)"
  by (simp add: Mile_def f64_const_def Foot_eq fl_5280 fl_mile)

lemma Inch_eq: "Inch = Fin False (7321051554253479 / 288230376151711744)"
  by (simp add: Inch_def f64_const_def Foot_eq fl_12 fl_inch)

lemma NauticalMile_eq: "NauticalMile = Fin False 1852"
  by (simp add: NauticalMile_def f64_const_def Meter_eq fl_1852)

lemma Hectare_eq: "Hectare = Fin False 10000"
  by (simp add: Hectare_def f64_const_def SquareMeter_eq fl_1e4)

lemma SquareCentimeter_eq: "SquareCentimeter = Fin False (7378697629483821 / 73786976294838206464)"
  by (simp add: SquareCentimeter_def f64_const_def SquareMeter_eq fl_sqcm fl_sqcm_self)

lemma SquareMillimeter_eq: "SquareMillimeter = Fin False (4722366482869645 / 4722366482869645213696)"
  by (simp add: SquareMillimeter_def f64_const_def SquareMeter_eq fl_um fl_sqmm_self)

lemma SquareFoot_eq: "SquareFoot = Fin False (6694369541209381 / 72057594037927936)"
  by (simp add: SquareFoot_def f64_const_def SquareMeter_eq fl_sqfoot fl_sqfoot_self)

lemma SquareMile_eq: "SquareMile = Fin False (1390489278865245 / 536870912)"
  by (simp add: SquareMile_def f64_const_def SquareFoot_eq fl_5280sq fl_sqmile)

lemma Acre_eq: "Acre = Fin False (278097855773049 / 68719476736)"
  by (simp add: Acre_def f64_const_def SquareFoot_eq fl_43560 fl_acre)

lemma SquareInch_eq: "SquareInch = Fin False (1487637675824307 / 2305843009213693952)"
  by (simp add: SquareInch_def f64_const_def SquareFoot_eq fl_144 fl_sqinch)

lemma hourInSeconds_eq: "hourInSeconds = Fin False 3600"
  by (simp add: hourInSeconds_def f64_const_def fl_3600)

lemma KilometerPerHour_eq: "KilometerPerHour = Fin False (2501999792983609 / 9007199254740992)"
  by (simp add: KilometerPerHour_def Kilometer_eq Meter_eq MeterPerSecond_eq hourInSeconds_eq
      fl_1000 fl_kph)

lemma FootPerSecond_eq: "FootPerSecond = Fin False (5490788665690109 / 18014398509481984)"
  by (simp add: FootPerSecond_def Foot_eq Meter_eq MeterPerSecond_eq fl_foot_self)

lemma MilePerHour_eq: "MilePerHour = Fin False (4026578354839413 / 9007199254740992)"
  by (simp add: MilePerHour_def Mile_eq Foot_eq FootPerSecond_eq hourInSeconds_eq
      fl_mile_foot fl_5280fps fl_mph)

lemma Knot_eq: "Knot = Fin False (1158425904151411 / 2251799813685248)"
  by (simp add: Knot_def NauticalMile_eq Kilometer_eq KilometerPerHour_eq fl_nmkm fl_knot)

lemmas unit_values = Kilometer_eq Meter_eq Centimeter_eq Millimeter_eq Micrometer_eq Mile_eq
  Foot_eq Inch_eq NauticalMile_eq SquareKilometer_eq Hectare_eq SquareMeter_eq
  SquareCentimeter_eq SquareMillimeter_eq SquareMile_eq Acre_eq SquareFoot_eq SquareInch_eq
  MeterPerSecond_eq FootPerSecond_eq KilometerPerHour_eq MilePerHour_eq Knot_eq Kelvin_eq
  Rankine_eq

lemmas accessor_defs = Kilometers_def Meters_def Centimeters_def Millimeters_def
  Micrometers_def Miles_def Feet_def Inches_def NauticalMiles_def SquareKilometers_def
  Hectares_def SquareMeters_def SquareCentimeters_def SquareMillimeters_def SquareMiles_def
  Acres_def SquareFeet_def SquareInches_def MetersPerSecond_def FeetPerSecond_def
  KilometersPerHour_def MilesPerHour_def Knots_def Temperature_Kelvin_def DegreesRankine_def

lemma unit_form:
  assumes "(U, acc) \<in> set (length_units @ area_units @ speed_units @ temperature_scale_units)"
  shows "is_finite U \<and> \<not> signbit U \<and> 0 < fval U \<and> (\<forall>l. valid l \<longrightarrow> acc l = fdiv l U)"
  using assms
  unfolding length_units_def area_units_def speed_units_def temperature_scale_units_def
  by (auto simp: unit_values accessor_defs sval_def fdiv_one_right)

section \<open>Evaluation of round trips\<close>

lemma fl_7foot: "fl s (38435520659830763 / 18014398509481984) = Fin s (4804440082478845 / 2251799813685248)"
  by (rule fl_cert[where k = "1" and m = 4804440082478845 and e = "- 51"]) simp_all

lemma fl_7foot_back: "fl s (38435520659830760 / 5490788665690109) = Fin s (7881299347898367 / 1125899906842624)"
  by (rule fl_cert[where k = "2" and m = 7881299347898367 and e = "- 50"]) simp_all

lemma fl_c0_tiny: "fl s (314920508983360225281 / 1152921504606846976) = Fin s (2402652809016115 / 8796093022208)"
  by (rule fl_cert[where k = "8" and m = 4805305618032230 and e = "- 44"]) simp_all

lemma valid_7: "valid (Fin s (7))"
  by (rule valid_cert[where m = 7881299347898368 and e = "- 50"]) simp_all

lemma valid_tiny: "valid (Fin s (1 / 1152921504606846976))"
  by (rule valid_cert[where m = 4503599627370496 and e = "- 112"]) simp_all

lemma valid_big: "valid (Fin s (2 ^ 1023))"
  by (rule valid_cert[where m = "2 ^ 52" and e = 971]) simp_all

lemma round_mag_big: "round_mag (2 ^ 1023 * 1000) = of_int (1000 * 2 ^ 43) * 2 powi 980"
  by (rule round_mag_cert[where k = 1032]) simp_all

lemma fl_big: "fl s (2 ^ 1023 * 1000) = Inf s"
  unfolding fl_def Let_def round_mag_big by simp

section \<open>The round trip through the affine units\<close>

lemma round_mag_abs_error:
  assumes "0 \<le> q"
  shows "\<bar>round_mag q - q\<bar> \<le> q / 2 ^ 53 + 1 / 2 ^ 1075"
proof (cases "2 powi (- 1022) \<le> q")
  case True
  have "\<bar>round_mag q - q\<bar> \<le> q / 2 ^ 53" by (rule round_mag_rel_error_normal[OF True])
  thus ?thesis by simp
next
  case False
  show ?thesis
  proof (cases "q = 0")
    case True
    thus ?thesis by simp
  next
    case nz: False
    hence qpos: "0 < q" using assms by simp
    have "expo q = - 1074" using qpos False by (intro expo_subnormal) simp_all
    hence "\<bar>round_mag q - q\<bar> \<le> 2 powi (- 1075)" using round_mag_error[OF qpos] by simp
    also have "(2::rat) powi (- 1075) = 1 / 2 ^ 1075" by (simp add: power_int_minus_divide)
    finally show ?thesis using qpos by simp
  qed
qed

lemma fl_Fin_value:
  assumes "fl s q = Fin b a" "0 \<le> q"
  shows "b = s \<and> \<bar>a - q\<bar> \<le> q / 2 ^ 53 + 1 / 2 ^ 1075 \<and> 0 \<le> a"
proof -
  have "b = s" "a = round_mag q" using assms(1) by (auto simp: fl_def Let_def split: if_splits)
  thus ?thesis using round_mag_abs_error[OF assms(2)] round_mag_nonneg[OF assms(2)] by simp
qed

lemma fadd_Fin_value:
  assumes "fadd (Fin s q) (Fin t r) = Fin b a"
  shows "\<bar>sval b a - (sval s q + sval t r)\<bar> \<le> \<bar>sval s q + sval t r\<bar> / 2 ^ 53 + 1 / 2 ^ 1075"
proof -
  define v where "v = sval s q + sval t r"
  show ?thesis
  proof (cases "v = 0")
    case True
    hence "a = 0" using assms by (simp add: v_def Let_def)
    thus ?thesis using True by (simp add: v_def sval_def)
  next
    case False
    hence "fl (v < 0) \<bar>v\<bar> = Fin b a" using assms by (simp add: v_def Let_def)
    from fl_Fin_value[OF this] have b: "b = (v < 0)" and e: "\<bar>a - \<bar>v\<bar>\<bar> \<le> \<bar>v\<bar> / 2 ^ 53 + 1 / 2 ^ 1075"
      by simp_all
    have "\<bar>sval b a - v\<bar> = \<bar>a - \<bar>v\<bar>\<bar>" unfolding b sval_def by (cases "v < 0") auto
    thus ?thesis using e by (simp add: v_def)
  qed
qed

lemma fmul_Fin_value:
  assumes "fmul (Fin s q) (Fin False r) = Fin b a" "0 \<le> q" "0 \<le> r"
  shows "\<bar>sval b a - sval s q * r\<bar> \<le> q * r / 2 ^ 53 + 1 / 2 ^ 1075"
proof -
  have "fl s (q * r) = Fin b a" using assms(1) by simp
  from fl_Fin_value[OF this] assms(2,3)
  have b: "b = s" and e: "\<bar>a - q * r\<bar> \<le> q * r / 2 ^ 53 + 1 / 2 ^ 1075" by simp_all
  have "\<bar>sval b a - sval s q * r\<bar> = \<bar>a - q * r\<bar>"
    unfolding b sval_def by (cases s) (simp_all add: abs_minus_commute)
  thus ?thesis using e by simp
qed

lemma fdiv_Fin_value:
  assumes "fdiv (Fin s q) (Fin False r) = Fin b a" "0 \<le> q" "0 < r"
  shows "\<bar>sval b a - sval s q / r\<bar> \<le> q / r / 2 ^ 53 + 1 / 2 ^ 1075"
proof -
  have "fl s (q / r) = Fin b a" using assms(1,3) by simp
  from fl_Fin_value[OF this] assms(2,3)
  have b: "b = s" and e: "\<bar>a - q / r\<bar> \<le> q / r / 2 ^ 53 + 1 / 2 ^ 1075" by simp_all
  have "\<bar>sval b a - sval s q / r\<bar> = \<bar>a - q / r\<bar>"
    unfolding b sval_def by (cases s) (simp_all add: abs_minus_commute)
  thus ?thesis using e by simp
qed

lemma is_finite_fadd: "is_finite (fadd a b) \<Longrightarrow> is_finite a \<and> is_finite b"
  by (cases a; cases b) (auto split: if_splits)

lemma is_finite_fdiv: "is_finite (fdiv a (Fin False r)) \<Longrightarrow> r \<noteq> 0 \<Longrightarrow> is_finite a"
  by (cases a) auto

lemma is_finite_fmul: "is_finite (fmul a (Fin False r)) \<Longrightarrow> is_finite a"
  by (cases a) (auto split: if_splits)

lemma is_finite_Fin: "is_finite a \<Longrightarrow> \<exists>s q. a = Fin s q"
  by (cases a) auto

lemma valid_Fin_nonneg: "valid (Fin s q) \<Longrightarrow> 0 \<le> q"
  by simp

lemma celsius_arith:
  fixes C T D :: rat
  assumes h1: "\<bar>T - (C + 2402652809016115 / 8796093022208)\<bar>
        \<le> \<bar>C + 2402652809016115 / 8796093022208\<bar> / 2 ^ 53 + 1 / 2 ^ 1075"
    and h2: "\<bar>D - (T - 2402652809016115 / 8796093022208)\<bar>
        \<le> \<bar>T - 2402652809016115 / 8796093022208\<bar> / 2 ^ 53 + 1 / 2 ^ 1075"
    and h3: "1 \<le> \<bar>C\<bar>"
  shows "\<bar>D - C\<bar> \<le> 1 / 10 ^ 13 * \<bar>C\<bar>"
proof -
  define n :: rat where "n = 2402652809016115 / 8796093022208"
  define d :: rat where "d = 1 / 2 ^ 1075"
  define ep :: rat where "ep = 1 / 2 ^ 53"
  have n: "0 \<le> n" "n \<le> 274" by (simp_all add: n_def)
  have d: "0 \<le> d" "d \<le> ep" by (simp_all add: d_def ep_def)
  have ep: "0 \<le> ep" "ep \<le> 1 / 90000000 / 10 ^ 8" by (simp_all add: ep_def)
  have a1: "\<bar>T - (C + n)\<bar> \<le> \<bar>C + n\<bar> * ep + d" using h1 by (simp add: n_def d_def ep_def)
  have a2: "\<bar>D - (T - n)\<bar> \<le> \<bar>T - n\<bar> * ep + d" using h2 by (simp add: n_def d_def ep_def)
  define X where "X = \<bar>C\<bar> * ep"
  have X1: "ep \<le> X" unfolding X_def using mult_right_mono[OF h3 ep(1)] by simp
  have X2: "X \<le> \<bar>C\<bar>" unfolding X_def using ep by (intro mult_left_le) simp_all
  have b1: "\<bar>C + n\<bar> \<le> 275 * \<bar>C\<bar>" using n h3 by linarith
  have "\<bar>C + n\<bar> * ep \<le> (275 * \<bar>C\<bar>) * ep" using b1 ep(1) by (rule mult_right_mono)
  hence "\<bar>C + n\<bar> * ep \<le> 275 * X" by (simp add: X_def)
  hence e1: "\<bar>T - (C + n)\<bar> \<le> 276 * X" using a1 d X1 by linarith
  hence "\<bar>T - n\<bar> \<le> 277 * \<bar>C\<bar>" using X2 by linarith
  hence "\<bar>T - n\<bar> * ep \<le> (277 * \<bar>C\<bar>) * ep" using ep(1) by (rule mult_right_mono)
  hence "\<bar>T - n\<bar> * ep \<le> 277 * X" by (simp add: X_def)
  hence e2: "\<bar>D - (T - n)\<bar> \<le> 278 * X" using a2 d X1 by linarith
  have "\<bar>D - C\<bar> \<le> 554 * X" using e1 e2 by linarith
  also have "\<dots> \<le> 1 / 10 ^ 13 * \<bar>C\<bar>"
  proof -
    have "554 * ep \<le> 1 / 10 ^ 13" by (simp add: ep_def)
    hence "554 * ep * \<bar>C\<bar> \<le> 1 / 10 ^ 13 * \<bar>C\<bar>" by (rule mult_right_mono) simp
    thus ?thesis by (simp add: mult_ac X_def)
  qed
  finally show ?thesis .
qed

lemma fahrenheit_arith:
  fixes Fv P T D Rv :: rat
  assumes h1: "\<bar>P - Fv * (2501999792983609 / 4503599627370496)\<bar> \<le> \<bar>Fv\<bar> * (2501999792983609 / 4503599627370496) / 2 ^ 53 + 1 / 2 ^ 1075"
    and h2: "\<bar>T - (P + 8985111287818559 / 35184372088832)\<bar> \<le> \<bar>P + 8985111287818559 / 35184372088832\<bar> / 2 ^ 53 + 1 / 2 ^ 1075"
    and h3: "\<bar>D - (T - 8985111287818559 / 35184372088832)\<bar> \<le> \<bar>T - 8985111287818559 / 35184372088832\<bar> / 2 ^ 53 + 1 / 2 ^ 1075"
    and h4: "\<bar>Rv - D / (2501999792983609 / 4503599627370496)\<bar> \<le> \<bar>D\<bar> / (2501999792983609 / 4503599627370496) / 2 ^ 53 + 1 / 2 ^ 1075"
    and h5: "1 \<le> \<bar>Fv\<bar>"
  shows "\<bar>Rv - Fv\<bar> \<le> 1 / 10 ^ 13 * \<bar>Fv\<bar>"
proof -
  let ?R = "2501999792983609 / 4503599627370496 :: rat"
  let ?N = "8985111287818559 / 35184372088832 :: rat"
  define d :: rat where "d = 1 / 2 ^ 1075"
  define ep :: rat where "ep = 1 / 2 ^ 53"
  define X where "X = \<bar>Fv\<bar> * ep"
  have d: "0 \<le> d" "100 * d \<le> ep" by (simp_all add: d_def ep_def)
  have ep: "0 \<le> ep" "1000000 * ep \<le> 1" by (simp_all add: ep_def)
  have X0: "0 \<le> X" unfolding X_def using ep(1) by simp
  have X1: "ep \<le> X" unfolding X_def using mult_right_mono[OF h5 ep(1)] by simp
  have X2: "1000000 * X \<le> \<bar>Fv\<bar>"
  proof -
    have "\<bar>Fv\<bar> * (1000000 * ep) \<le> \<bar>Fv\<bar> * 1" using ep(2) by (intro mult_left_mono) simp_all
    thus ?thesis by (simp add: X_def mult_ac)
  qed
  have a1: "\<bar>P - Fv * ?R\<bar> \<le> ?R * X + d" using h1 by (simp add: d_def ep_def X_def)
  have e1: "\<bar>P - Fv * ?R\<bar> \<le> 6 / 10 * X" using a1 d X1 X0 by linarith
  have p: "\<bar>P\<bar> \<le> 56 / 100 * \<bar>Fv\<bar>" using e1 X2 X0 by linarith
  have "\<bar>P + ?N\<bar> \<le> 25596 / 100 * \<bar>Fv\<bar>" using p h5 by linarith
  hence "\<bar>P + ?N\<bar> * ep \<le> (25596 / 100 * \<bar>Fv\<bar>) * ep" using ep(1) by (rule mult_right_mono)
  hence "\<bar>P + ?N\<bar> / 2 ^ 53 \<le> 25596 / 100 * X" by (simp add: X_def ep_def)
  hence e2: "\<bar>T - (P + ?N)\<bar> \<le> 256 * X" using h2 d X1 unfolding d_def[symmetric] by linarith
  have t: "\<bar>T - ?N\<bar> \<le> 57 / 100 * \<bar>Fv\<bar>" using e2 p X2 X0 by linarith
  hence "\<bar>T - ?N\<bar> * ep \<le> (57 / 100 * \<bar>Fv\<bar>) * ep" using ep(1) by (rule mult_right_mono)
  hence "\<bar>T - ?N\<bar> / 2 ^ 53 \<le> 57 / 100 * X" by (simp add: X_def ep_def)
  hence e3: "\<bar>D - (T - ?N)\<bar> \<le> 6 / 10 * X" using h3 d X1 unfolding d_def[symmetric] by linarith
  have e123: "\<bar>D - Fv * ?R\<bar> \<le> 2572 / 10 * X" using e1 e2 e3 by linarith
  let ?S = "4503599627370496 / 2501999792983609 :: rat"
  have dr: "D / ?R = D * ?S" "\<bar>D\<bar> / ?R = \<bar>D\<bar> * ?S" by simp_all
  have "\<bar>D * ?S - Fv\<bar> \<le> 464 * X" using e123 X0 by linarith
  hence q: "\<bar>D / ?R - Fv\<bar> \<le> 464 * X" unfolding dr .
  have "\<bar>D\<bar> * ?S \<le> 101 / 100 * \<bar>Fv\<bar>" using e123 X2 X0 by linarith
  hence "\<bar>D\<bar> / ?R \<le> 101 / 100 * \<bar>Fv\<bar>" unfolding dr .
  hence "(\<bar>D\<bar> / ?R) * ep \<le> (101 / 100 * \<bar>Fv\<bar>) * ep" using ep(1) by (rule mult_right_mono)
  hence "\<bar>D\<bar> / ?R / 2 ^ 53 \<le> 101 / 100 * X" by (simp add: X_def ep_def)
  hence e4: "\<bar>Rv - D / ?R\<bar> \<le> 11 / 10 * X" using h4 d X1 unfolding d_def[symmetric] by linarith
  have "\<bar>Rv - Fv\<bar> \<le> 466 * X" using e4 q X0 by linarith
  also have "\<dots> \<le> 1 / 10 ^ 13 * \<bar>Fv\<bar>"
  proof -
    have "466 * ep \<le> 1 / 10 ^ 13" by (simp add: ep_def)
    hence "466 * ep * \<bar>Fv\<bar> \<le> 1 / 10 ^ 13 * \<bar>Fv\<bar>" by (rule mult_right_mono) simp
    thus ?thesis by (simp add: mult_ac X_def)
  qed
  finally show ?thesis .
qed

lemma celsius_round_trip:
  assumes "valid c" "is_finite c" "1 \<le> \<bar>fval c\<bar>"
    and "is_finite (DegreesCelsius (TemperatureFromDegreesCelsius c))"
  shows "within_rel (1 / 10 ^ 13) (DegreesCelsius (TemperatureFromDegreesCelsius c)) c"
proof -
  let ?N = "2402652809016115 / 8796093022208 :: rat"
  obtain s q where c: "c = Fin s q" using assms(2) by (cases c) auto
  define t where "t = fadd c (Fin False ?N)"
  define d where "d = fadd t (Fin True ?N)"
  have T: "TemperatureFromDegreesCelsius c = t"
    using assms(1)
    by (simp only: TemperatureFromDegreesCelsius_def Kelvin_eq celsius0_eq fmul_one_right t_def)
  have "DegreesCelsius t = fdiv d (Fin False 1)"
    by (simp add: DegreesCelsius_def Kelvin_eq celsius0_eq fsub_def d_def)
  moreover have "valid d" unfolding d_def by (rule valid_fadd)
  ultimately have D: "DegreesCelsius (TemperatureFromDegreesCelsius c) = d"
    unfolding T by (simp add: fdiv_one_right)
  have fd: "is_finite d" using assms(4) unfolding D .
  hence "is_finite t" unfolding d_def by (auto dest: is_finite_fadd)
  then obtain b1 a1 where t: "t = Fin b1 a1" by (cases t) auto
  obtain b2 a2 where d: "d = Fin b2 a2" using fd by (cases d) auto
  have h1: "\<bar>sval b1 a1 - (sval s q + ?N)\<bar> \<le> \<bar>sval s q + ?N\<bar> / 2 ^ 53 + 1 / 2 ^ 1075"
    using fadd_Fin_value[of s q False ?N b1 a1] t unfolding t_def c by (simp add: sval_def)
  have h2: "\<bar>sval b2 a2 - (sval b1 a1 - ?N)\<bar> \<le> \<bar>sval b1 a1 - ?N\<bar> / 2 ^ 53 + 1 / 2 ^ 1075"
    using fadd_Fin_value[of b1 a1 True ?N b2 a2] d unfolding d_def t by (simp add: sval_def)
  have h3: "1 \<le> \<bar>sval s q\<bar>" using assms(3) by (simp add: c)
  have "\<bar>sval b2 a2 - sval s q\<bar> \<le> 1 / 10 ^ 13 * \<bar>sval s q\<bar>"
    by (rule celsius_arith[OF h1 h2 h3])
  thus ?thesis unfolding within_rel_def D d by (simp add: c)
qed

lemma fahrenheit_round_trip:
  assumes "valid f" "is_finite f" "1 \<le> \<bar>fval f\<bar>"
    and "is_finite (DegreesFahrenheit (TemperatureFromDegreesFahrenheit f))"
  shows "within_rel (1 / 10 ^ 13) (DegreesFahrenheit (TemperatureFromDegreesFahrenheit f)) f"
proof -
  let ?R = "2501999792983609 / 4503599627370496 :: rat"
  let ?N = "8985111287818559 / 35184372088832 :: rat"
  obtain s q where f: "f = Fin s q" using assms(2) by (cases f) auto
  have q0: "0 \<le> q" using assms(1) by (simp add: f)
  define p where "p = fmul f (Fin False ?R)"
  define t where "t = fadd p (Fin False ?N)"
  define d where "d = fadd t (Fin True ?N)"
  define r where "r = fdiv d (Fin False ?R)"
  have T: "TemperatureFromDegreesFahrenheit f = t"
    by (simp only: TemperatureFromDegreesFahrenheit_def Rankine_eq fahrenheit0_eq t_def p_def)
  have D: "DegreesFahrenheit (TemperatureFromDegreesFahrenheit f) = r"
    unfolding T by (simp add: DegreesFahrenheit_def Rankine_eq fahrenheit0_eq fsub_def d_def r_def)
  have fr: "is_finite r" using assms(4) unfolding D .
  hence fd: "is_finite d" unfolding r_def by (auto dest: is_finite_fdiv)
  hence ft: "is_finite t" unfolding d_def by (auto dest: is_finite_fadd)
  hence fp: "is_finite p" unfolding t_def by (auto dest: is_finite_fadd)
  obtain b0 a0 where p: "p = Fin b0 a0" using fp by (cases p) auto
  obtain b1 a1 where t: "t = Fin b1 a1" using ft by (cases t) auto
  obtain b2 a2 where d: "d = Fin b2 a2" using fd by (cases d) auto
  obtain b3 a3 where r: "r = Fin b3 a3" using fr by (cases r) auto
  have "valid d" unfolding d_def by (rule valid_fadd)
  hence a2: "0 \<le> a2" by (simp add: d)
  have aq: "\<bar>sval s q\<bar> = q" using q0 by (simp add: sval_def)
  have ad: "\<bar>sval b2 a2\<bar> = a2" using a2 by (simp add: sval_def)
  have h1: "\<bar>sval b0 a0 - sval s q * ?R\<bar> \<le> \<bar>sval s q\<bar> * ?R / 2 ^ 53 + 1 / 2 ^ 1075"
    unfolding aq using fmul_Fin_value[of s q ?R b0 a0] p q0 unfolding p_def f by simp
  have h2: "\<bar>sval b1 a1 - (sval b0 a0 + ?N)\<bar> \<le> \<bar>sval b0 a0 + ?N\<bar> / 2 ^ 53 + 1 / 2 ^ 1075"
    using fadd_Fin_value[of b0 a0 False ?N b1 a1] t unfolding t_def p by (simp add: sval_def)
  have h3: "\<bar>sval b2 a2 - (sval b1 a1 - ?N)\<bar> \<le> \<bar>sval b1 a1 - ?N\<bar> / 2 ^ 53 + 1 / 2 ^ 1075"
    using fadd_Fin_value[of b1 a1 True ?N b2 a2] d unfolding d_def t by (simp add: sval_def)
  have h4: "\<bar>sval b3 a3 - sval b2 a2 / ?R\<bar> \<le> \<bar>sval b2 a2\<bar> / ?R / 2 ^ 53 + 1 / 2 ^ 1075"
    unfolding ad using fdiv_Fin_value[of b2 a2 ?R b3 a3] r a2 unfolding r_def d by simp
  have h5: "1 \<le> \<bar>sval s q\<bar>" using assms(3) by (simp add: f)
  have "\<bar>sval b3 a3 - sval s q\<bar> \<le> 1 / 10 ^ 13 * \<bar>sval s q\<bar>"
    by (rule fahrenheit_arith[OF h1 h2 h3 h4 h5])
  thus ?thesis unfolding within_rel_def D r by (simp add: f)
qed

lemma scale_round_trip:
  assumes "(U, acc) \<in> set (length_units @ area_units @ speed_units @ temperature_scale_units)"
    and "valid x" "is_finite x"
    and "fval x = 0 \<or> (2 powi (- 1022) \<le> \<bar>fval x\<bar> \<and> 2 powi (- 1022) \<le> \<bar>fval x\<bar> * fval U)"
    and "is_finite (acc (fmul x U))"
  shows "within_rel (1 / 10 ^ 15) (acc (fmul x U)) x"
proof -
  from unit_form[OF assms(1)] obtain u where U: "U = Fin False u" and u: "0 < u"
    and acc: "\<And>l. valid l \<Longrightarrow> acc l = fdiv l U"
    by (cases U) (auto simp: sval_def)
  obtain s q where x: "x = Fin s q" using assms(3) by (cases x) auto
  have q0: "0 \<le> q" using assms(2) by (simp add: x)
  have m: "fmul x U = fl s (q * u)" by (simp add: x U)
  have "valid (fmul x U)" unfolding m using q0 u by (intro valid_fl) simp
  hence a: "acc (fmul x U) = fdiv (fl s (q * u)) U" unfolding m[symmetric] using acc m by simp
  define y where "y = round_mag (q * u)"
  have fy: "fl s (q * u) = Fin s y"
  proof (rule ccontr)
    assume "fl s (q * u) \<noteq> Fin s y"
    hence "fl s (q * u) = Inf s" by (simp add: fl_def Let_def y_def split: if_splits)
    hence "acc (fmul x U) = Inf s" unfolding a by (simp add: U)
    thus False using assms(5) by simp
  qed
  define z where "z = round_mag (y / u)"
  have d: "acc (fmul x U) = fl s (y / u)" unfolding a fy using u by (simp add: U)
  have fz: "acc (fmul x U) = Fin s z"
  proof (rule ccontr)
    assume "acc (fmul x U) \<noteq> Fin s z"
    hence "acc (fmul x U) = Inf s" unfolding d by (simp add: fl_def Let_def z_def split: if_splits)
    thus False using assms(5) by simp
  qed
  have "\<bar>z - q\<bar> \<le> q / 10 ^ 15"
  proof (cases "q = 0")
    case True
    thus ?thesis by (simp add: z_def y_def)
  next
    case False
    hence "2 powi (- 1022) \<le> q \<and> 2 powi (- 1022) \<le> q * u"
      using assms(4) q0 by (auto simp: x U sval_def split: if_splits)
    thus ?thesis unfolding z_def y_def using u by (intro round_trip_mag) simp_all
  qed
  moreover have "\<bar>sval s z - sval s q\<bar> = \<bar>z - q\<bar>"
    by (simp add: sval_def abs_minus_commute)
  moreover have "\<bar>sval s q\<bar> = q" using q0 by (simp add: sval_def)
  ultimately show ?thesis unfolding within_rel_def fz by (simp add: x)
qed

section \<open>Evaluation of round trips through the affine units\<close>

lemma fl_c15: "fl s (2534594204349235 / 8796093022208) = Fin s (2534594204349235 / 8796093022208)"
  by (rule fl_cert[where k = "8" and m = 5069188408698470 and e = "- 44"]) simp_all

lemma fl_c15_back: "fl s (15) = Fin s (15)"
  by (rule fl_cert[where k = "3" and m = 8444249301319680 and e = "- 49"]) simp_all

lemma fl_f59: "fl s (147617987786032931 / 4503599627370496) = Fin s (4613062118313529 / 140737488355328)"
  by (rule fl_cert[where k = "5" and m = 4613062118313529 and e = "- 47"]) simp_all

lemma fl_f59_t: "fl s (40553507269587765 / 140737488355328) = Fin s (5069188408698471 / 17592186044416)"
  by (rule fl_cert[where k = "8" and m = 5069188408698471 and e = "- 44"]) simp_all

lemma fl_f59_d: "fl s (1153265529578383 / 35184372088832) = Fin s (1153265529578383 / 35184372088832)"
  by (rule fl_cert[where k = "5" and m = 4613062118313532 and e = "- 47"]) simp_all

lemma fl_f59_r: "fl s (147617987786033024 / 2501999792983609) = Fin s (8303511812964357 / 140737488355328)"
  by (rule fl_cert[where k = "5" and m = 8303511812964357 and e = "- 47"]) simp_all

lemma valid_15: "valid (Fin s (15))"
  by (rule valid_cert[where m = 8444249301319680 and e = "- 49"]) simp_all

lemma valid_59: "valid (Fin s (59))"
  by (rule valid_cert[where m = 8303511812964352 and e = "- 47"]) simp_all

section \<open>Claims\<close>

text \<open>
  C10. For a Length that is NaN, the bypass comparison and every comparison of the loop over
  the thresholds are false, so \<^verbatim>\<open>format\<close> reaches its last return: \<^verbatim>\<open>String\<close> gives
  \<^verbatim>\<open>NaNm\<close> and \<^verbatim>\<open>GoString\<close> gives \<^verbatim>\<open>NaN * Meter\<close>. For an Area that is NaN,
  \<^verbatim>\<open>String\<close> gives \<^verbatim>\<open>NaNm^2\<close>.
\<close>

theorem C10_nan_formatting:
  "\<not> fge (Abs NaN) (fmul (f64_const 1000) (u_length kmDesc))
   \<and> [u \<leftarrow> unitThresholds. fge (Abs NaN) (u_length u)] = []
   \<and> format NaN = (''NaN'', meterDesc)
   \<and> String NaN = ''NaNm''
   \<and> GoString NaN = ''NaN * Meter''
   \<and> \<not> fgt (Area_Abs NaN) (fmul (f64_const 1000000) (a_area squareKmDesc))
   \<and> [u \<leftarrow> areaUnitThresholds. fge (Area_Abs NaN) (a_area u)] = []
   \<and> Area_format NaN = (''NaN'', squareMeterDesc)
   \<and> Area_String NaN = ''NaNm^2''
   \<and> Area_GoString NaN = ''NaN * SquareMeter''"
  by (simp add: format_def format_loop_NaN Abs_NaN fge_def fgt_def String_def GoString_def
      meterDesc_def Area_format_def Area_format_loop_NaN Area_Abs_NaN Area_String_def
      Area_GoString_def squareMeterDesc_def SquareMeters_def)

text \<open>
  C7. Speed and Temperature are formatted in a single unit, with no selection of a unit by
  thresholds: for every Speed \<open>s\<close>, \<^verbatim>\<open>String\<close> is the value in meters per second (which
  is \<open>s\<close> itself) in general formatting followed by \<^verbatim>\<open> m/s\<close>, and \<^verbatim>\<open>GoString\<close> is it
  followed by \<^verbatim>\<open> * MeterPerSecond\<close>; for every Temperature \<open>t\<close>, \<^verbatim>\<open>String\<close> is the
  value in Kelvin followed by \<^verbatim>\<open> K\<close> and \<^verbatim>\<open>GoString\<close> is it followed by \<^verbatim>\<open> * Kelvin\<close>.
\<close>

theorem C7_single_unit_formatting:
  "valid s \<Longrightarrow> valid t \<Longrightarrow>
     Speed_String s = fmt_g (MetersPerSecond s) @ '' m/s''
   \<and> Speed_GoString s = fmt_g (MetersPerSecond s) @ '' * MeterPerSecond''
   \<and> MetersPerSecond s = s
   \<and> Temperature_String t = fmt_g (Temperature_Kelvin t) @ '' K''
   \<and> Temperature_GoString t = fmt_g (Temperature_Kelvin t) @ '' * Kelvin''
   \<and> Temperature_Kelvin t = t"
  by (simp add: Speed_String_def Speed_GoString_def Temperature_String_def
      Temperature_GoString_def MetersPerSecond_def Temperature_Kelvin_def fmt_v_def
      MeterPerSecond_eq Kelvin_eq fdiv_one_right)

text \<open>
  C8, as stated, fails for NaN: \<^verbatim>\<open>Abs\<close> returns NaN, and NaN is neither \<open>\<ge> 0\<close> nor equal to
  itself. (A negative zero is returned as it is, with its sign bit; it compares equal to 0.)
\<close>

theorem C8_abs_counterexample:
  "\<not> fge (Abs NaN) (f64_const 0) \<and> \<not> feq (Abs NaN) (Abs (fneg NaN))
   \<and> \<not> fge (Area_Abs NaN) (f64_const 0) \<and> \<not> feq (Area_Abs NaN) (Area_Abs (fneg NaN))
   \<and> Abs (Fin True 0) = Fin True 0"
  by (simp add: Abs_NaN Area_Abs_NaN fge_def feq_def Abs_def zero_eq sval_def)

text \<open>
  C8, amended. For every Length and every Area \<open>x\<close> that is not NaN, \<^verbatim>\<open>x.Abs() >= 0\<close> and
  \<^verbatim>\<open>x.Abs() == (-x).Abs()\<close> hold with Go's comparisons; the value of \<^verbatim>\<open>x.Abs()\<close> is the
  absolute value of the value of \<open>x\<close>, an infinity gives the positive infinity, and a zero
  gives a result equal to 0.
\<close>

theorem C8_abs:
  assumes "valid x" "x \<noteq> NaN"
  shows "fge (Abs x) (f64_const 0) \<and> feq (Abs x) (Abs (fneg x))
     \<and> fval (Abs x) = \<bar>fval x\<bar>
     \<and> Abs (Inf s) = Inf False
     \<and> feq (Abs (Fin s 0)) (f64_const 0)
     \<and> fge (Area_Abs x) (f64_const 0) \<and> feq (Area_Abs x) (Area_Abs (fneg x))
     \<and> fval (Area_Abs x) = \<bar>fval x\<bar>
     \<and> Area_Abs (Inf s) = Inf False
     \<and> feq (Area_Abs (Fin s 0)) (f64_const 0)"
  using assms
  by (cases x) (auto simp: Abs_def Area_Abs_def zero_eq fge_def feq_def sval_def)

theorem C8_abs_witness:
  "valid (Fin True 1) \<and> Fin True 1 \<noteq> NaN \<and> Abs (Fin True 1) = Fin False 1
   \<and> fge (Abs (Fin True 1)) (f64_const 0) \<and> feq (Abs (Fin True 1)) (Abs (fneg (Fin True 1)))"
  using C8_abs[of "Fin True 1"] valid_one[of True]
  by (simp add: Abs_def zero_eq sval_def)

text \<open>
  C1. For every Length \<open>l\<close> with \<open>|l| < 1000\<close> kilometers, \<^verbatim>\<open>format\<close> scans the list
  Kilometer, Meter, Centimeter, Millimeter, Micrometer, which is in descending order, and takes
  the first unit \<open>u\<close> with \<open>|l| \<ge>\<close> the length of \<open>u\<close>, which is the largest such unit of the
  list; \<^verbatim>\<open>String\<close> and \<^verbatim>\<open>GoString\<close> render \<open>l\<close> divided by the length of \<open>u\<close> with the
  symbol and the name of \<open>u\<close>. No unit is found exactly when \<open>|l|\<close> is below one micrometer,
  and then \<open>l\<close> is rendered in meters with the verb \<^verbatim>\<open>%g\<close>.
\<close>

theorem C1_best_fit_unit:
  assumes "flt (Abs l) (fmul (f64_const 1000) Kilometer)"
  shows "format l =
      (case find (\<lambda>u. fge (Abs l) (u_length u)) unitThresholds of
         Some u \<Rightarrow> (fmt_v (fdiv l (u_length u)), u)
       | None \<Rightarrow> (fmt_g (fdiv l Meter), meterDesc))
    \<and> String l =
      (case find (\<lambda>u. fge (Abs l) (u_length u)) unitThresholds of
         Some u \<Rightarrow> fmt_v (fdiv l (u_length u)) @ u_symbol u
       | None \<Rightarrow> fmt_g (fdiv l Meter) @ ''m'')
    \<and> GoString l =
      (case find (\<lambda>u. fge (Abs l) (u_length u)) unitThresholds of
         Some u \<Rightarrow> fmt_v (fdiv l (u_length u)) @ '' * '' @ u_name u
       | None \<Rightarrow> fmt_g (fdiv l Meter) @ '' * Meter'')
    \<and> map u_length unitThresholds = [Kilometer, Meter, Centimeter, Millimeter, Micrometer]
    \<and> sorted_wrt (\<lambda>u v. fgt (u_length u) (u_length v)) unitThresholds
    \<and> (\<forall>u v. find (\<lambda>u. fge (Abs l) (u_length u)) unitThresholds = Some u
          \<longrightarrow> v \<in> set unitThresholds \<longrightarrow> fge (Abs l) (u_length v)
          \<longrightarrow> fge (u_length u) (u_length v))
    \<and> ((find (\<lambda>u. fge (Abs l) (u_length u)) unitThresholds = None) = flt (Abs l) Micrometer)"
proof -
  let ?P = "\<lambda>u. fge (Abs l) (u_length u)"
  have nb: "\<not> fge (Abs l) (fmul (f64_const 1000) (u_length kmDesc))"
    using assms by (simp add: fge_def flt_not_fle kmDesc_def)
  have 1: "format l = (case find ?P unitThresholds of
         Some u \<Rightarrow> (fmt_v (fdiv l (u_length u)), u)
       | None \<Rightarrow> (fmt_g (fdiv l Meter), meterDesc))"
    using nb by (simp add: format_def format_loop_find meterDesc_def split: option.splits)
  have 2: "String l = (case find ?P unitThresholds of
         Some u \<Rightarrow> fmt_v (fdiv l (u_length u)) @ u_symbol u
       | None \<Rightarrow> fmt_g (fdiv l Meter) @ ''m'')"
    unfolding String_def 1 by (simp add: meterDesc_def split: option.splits)
  have 3: "GoString l = (case find ?P unitThresholds of
         Some u \<Rightarrow> fmt_v (fdiv l (u_length u)) @ '' * '' @ u_name u
       | None \<Rightarrow> fmt_g (fdiv l Meter) @ '' * Meter'')"
    unfolding GoString_def 1 by (simp add: meterDesc_def split: option.splits)
  have nn: "Abs l \<noteq> NaN" using assms by (cases "Abs l") auto
  have 4: "fge (u_length u) (u_length v)"
    if "find ?P unitThresholds = Some u" "v \<in> set unitThresholds" "?P v" for u v
  proof -
    have "u = v \<or> fgt (u_length u) (u_length v)"
      using find_sorted_first[OF thresholds_sorted that] .
    moreover have "u_length v \<noteq> NaN" using that(2) by (rule thresholds_not_NaN)
    ultimately show ?thesis by (auto simp: fge_def fgt_def fle_refl flt_imp_fle)
  qed
  have 5: "(find ?P unitThresholds = None) = flt (Abs l) Micrometer"
  proof
    assume "find ?P unitThresholds = None"
    hence "\<not> fge (Abs l) Micrometer" using um_in_thresholds by (auto simp: find_None_iff)
    thus "flt (Abs l) Micrometer" using nn
      by (intro not_fle_flt) (simp_all add: fge_def Micrometer_eq)
  next
    assume h: "flt (Abs l) Micrometer"
    have "\<not> ?P u" if "u \<in> set unitThresholds" for u
    proof
      assume "?P u"
      hence "fle (u_length u) (Abs l)" by (simp add: fge_def)
      hence "fle Micrometer (Abs l)" using thresholds_ge_um[OF that] fle_trans by blast
      thus False using h flt_not_fle by blast
    qed
    thus "find ?P unitThresholds = None" by (simp add: find_None_iff)
  qed
  show ?thesis using 1 2 3 thresholds_lengths thresholds_sorted 4 5 by blast
qed

text \<open>
  C4, amended. For every finite Length \<open>x\<close> whose sign bit is clear (every positive finite
  value and the positive zero), \<^verbatim>\<open>(-x).String()\<close> is \<^verbatim>\<open>"-"\<close> followed by
  \<^verbatim>\<open>x.String()\<close>, and \<^verbatim>\<open>(-x).GoString()\<close> is \<^verbatim>\<open>"-"\<close> followed by \<^verbatim>\<open>x.GoString()\<close>.
\<close>

theorem C4_sign_symmetry:
  assumes "valid x" "is_finite x" "\<not> signbit x"
  shows "String (fneg x) = ''-'' @ String x \<and> GoString (fneg x) = ''-'' @ GoString x"
proof -
  obtain q where x: "x = Fin False q" using assms(2,3) by (cases x) auto
  show ?thesis using format_neg[of q] assms(1)
    by (simp add: x String_def GoString_def split: prod.splits)
qed

text \<open>
  C4, as stated, fails at the positive infinity, which prints with a plus sign (\<^verbatim>\<open>+Infm\<close>
  against \<^verbatim>\<open>-Infm\<close>), and at the negative zero, which is \<open>\<ge> 0\<close> and prints as \<^verbatim>\<open>-0m\<close>
  while its negation prints as \<^verbatim>\<open>0m\<close>.
\<close>

theorem C4_sign_symmetry_counterexample:
  "fge (Inf False) (f64_const 0)
   \<and> String (Inf False) = ''+Infm'' \<and> String (fneg (Inf False)) = ''-Infm''
   \<and> String (fneg (Inf False)) \<noteq> ''-'' @ String (Inf False)
   \<and> GoString (fneg (Inf False)) \<noteq> ''-'' @ GoString (Inf False)
   \<and> fge (Fin True 0) (f64_const 0)
   \<and> String (Fin True 0) = ''-0m'' \<and> String (fneg (Fin True 0)) = ''0m''
   \<and> String (fneg (Fin True 0)) \<noteq> ''-'' @ String (Fin True 0)"
  by (simp add: String_def GoString_def format_def Abs_def zero_eq bypass_eq2 fge_def sval_def
      meterDesc_def Meter_eq unitThresholds_def kmDesc_def Kilometer_eq Centimeter_eq
      Millimeter_eq Micrometer_eq fmt_mag_def)

text \<open>
  C2. The literal cases of the selection of the unit for a Length: \<^verbatim>\<open>1e6 * Meter\<close> is
  \<^verbatim>\<open>1e+06m\<close>, \<^verbatim>\<open>999000 * Meter\<close> is \<^verbatim>\<open>999km\<close>, \<^verbatim>\<open>1000 * Meter\<close> is \<^verbatim>\<open>1km\<close>,
  \<^verbatim>\<open>999.99 * Meter\<close> is \<^verbatim>\<open>999.99m\<close>, \<^verbatim>\<open>1 * Meter\<close> is \<^verbatim>\<open>1m\<close>, \<^verbatim>\<open>0.998 * Meter\<close> is
  \<^verbatim>\<open>99.8cm\<close>, \<^verbatim>\<open>0.01 * Meter\<close> is \<^verbatim>\<open>1cm\<close>, \<^verbatim>\<open>0.0099 * Meter\<close> is \<^verbatim>\<open>9.9mm\<close>,
  \<^verbatim>\<open>0.001 * Meter\<close> is \<^verbatim>\<open>1mm\<close>, \<^verbatim>\<open>9.999e-4 * Meter\<close> is \<^verbatim>\<open>999.9\<close> micrometers,
  \<^verbatim>\<open>1e-6 * Meter\<close> is \<^verbatim>\<open>1\<close> micrometer, and \<^verbatim>\<open>9.99e-7 * Meter\<close> is \<^verbatim>\<open>9.99e-07m\<close>. The
  micrometer symbol is the micro sign in UTF-8 followed by \<^verbatim>\<open>m\<close>.
\<close>

theorem C2_length_literal_cases:
  "String (fmul (f64_const 1000000) Meter) = ''1e+06m''
   \<and> String (fmul (f64_const 999000) Meter) = ''999km''
   \<and> String (fmul (f64_const 1000) Meter) = ''1km''
   \<and> String (fmul (f64_const (99999 / 100)) Meter) = ''999.99m''
   \<and> String (fmul (f64_const 1) Meter) = ''1m''
   \<and> String (fmul (f64_const (998 / 1000)) Meter) = ''99.8cm''
   \<and> String (fmul (f64_const (1 / 100)) Meter) = ''1cm''
   \<and> String (fmul (f64_const (99 / 10000)) Meter) = ''9.9mm''
   \<and> String (fmul (f64_const (1 / 1000)) Meter) = ''1mm''
   \<and> String (fmul (f64_const (9999 / 10000000)) Meter) = ''999.9'' @ [CHR 0xC2, CHR 0xB5] @ ''m''
   \<and> String (fmul (f64_const (1 / 1000000)) Meter) = ''1'' @ [CHR 0xC2, CHR 0xB5] @ ''m''
   \<and> String (fmul (f64_const (999 / 1000000000)) Meter) = ''9.99e-07m''"
  by (simp add: String_def in_1e6 format_1e6 in_999000 format_999000 in_1000 format_1000 in_99999 format_99999 in_1 format_1 in_998 format_998 in_001 format_001 in_0099 format_0099 in_0001 format_0001 in_9999e4 format_9999e4 in_1e_6 format_1e_6 in_999e_7 format_999e_7 kmDesc_def meterDesc_def)

theorem C1_best_fit_unit_witness:
  "flt (Abs (Fin False (4494592428115755 / 4503599627370496))) (fmul (f64_const 1000) Kilometer)
   \<and> find (\<lambda>u. fge (Abs (Fin False (4494592428115755 / 4503599627370496))) (u_length u)) unitThresholds = Some \<lparr>u_length = Centimeter, u_name = ''Centimeter'', u_symbol = ''cm''\<rparr>
   \<and> format (Fin False (4494592428115755 / 4503599627370496)) = (fmt_v (fdiv (Fin False (4494592428115755 / 4503599627370496)) Centimeter), \<lparr>u_length = Centimeter, u_name = ''Centimeter'', u_symbol = ''cm''\<rparr>)
   \<and> String (Fin False (4494592428115755 / 4503599627370496)) = ''99.8cm''"
proof -
  have h: "flt (Abs (Fin False (4494592428115755 / 4503599627370496))) (fmul (f64_const 1000) Kilometer)"
    by (simp add: Abs_def zero_eq Kilometer_eq bypass_eq2 sval_def)
  have f: "find (\<lambda>u. fge (Abs (Fin False (4494592428115755 / 4503599627370496))) (u_length u)) unitThresholds = Some \<lparr>u_length = Centimeter, u_name = ''Centimeter'', u_symbol = ''cm''\<rparr>"
    by (simp add: Abs_def zero_eq fge_def sval_def unitThresholds_def kmDesc_def meterDesc_def
        Kilometer_eq Meter_eq Centimeter_eq Millimeter_eq Micrometer_eq)
  show ?thesis using C1_best_fit_unit[OF h] h f
    by (simp add: String_def format_998 Centimeter_eq fmt_v_def quo_998 fmt_998)
qed

theorem C4_sign_symmetry_witness:
  "valid (Fin False (4494592428115755 / 4503599627370496)) \<and> is_finite (Fin False (4494592428115755 / 4503599627370496)) \<and> \<not> signbit (Fin False (4494592428115755 / 4503599627370496))
   \<and> String (Fin False (4494592428115755 / 4503599627370496)) = ''99.8cm''
   \<and> String (fneg (Fin False (4494592428115755 / 4503599627370496))) = ''-99.8cm''
   \<and> GoString (fneg (Fin False (4494592428115755 / 4503599627370496))) = ''-99.8 * Centimeter''"
  using C4_sign_symmetry[of "Fin False (4494592428115755 / 4503599627370496)"] valid_998[of False]
  by (simp add: String_def GoString_def format_998)

theorem C7_single_unit_formatting_witness:
  "valid (Fin False 299792458) \<and> valid (Fin False (2587370762482483 / 8796093022208))
   \<and> Speed_String (Fin False 299792458) = ''2.99792458e+08 m/s''
   \<and> Speed_GoString (Fin False 299792458) = ''2.99792458e+08 * MeterPerSecond''
   \<and> Temperature_String (Fin False (2587370762482483 / 8796093022208)) = ''294.15 K''
   \<and> Temperature_GoString (Fin False (2587370762482483 / 8796093022208)) = ''294.15 * Kelvin''"
  using C7_single_unit_formatting[of "Fin False 299792458" "Fin False (2587370762482483 / 8796093022208)"]
    valid_c[of False] valid_t[of False]
  by (simp add: fmt_c fmt_t)

text \<open>
  C6. The constructors and accessors of the affine temperature units:
  \<^verbatim>\<open>TemperatureFromDegreesCelsius(c)\<close> is \<^verbatim>\<open>c * Kelvin + 273.15 * Kelvin\<close> and
  \<^verbatim>\<open>TemperatureFromDegreesFahrenheit(f)\<close> is \<^verbatim>\<open>f * Rankine + 459.67 * Rankine\<close>, with Rankine
  \<open>5 / 9\<close> Kelvin; \<^verbatim>\<open>DegreesCelsius(t)\<close> is \<^verbatim>\<open>(t - 273.15 * Kelvin) / Kelvin\<close> and
  \<^verbatim>\<open>DegreesFahrenheit(t)\<close> is \<^verbatim>\<open>(t - 459.67 * Rankine) / Rankine\<close>. Absolute zero, 0 Kelvin, is
  \<open>- 273.15\<close> degrees Celsius, \<open>- 459.67\<close> degrees Fahrenheit and 0 degrees Rankine, each
  exactly the float64 of that literal, and the constructors take these values back to 0 Kelvin.
\<close>

theorem C6_temperature_affine:
  "TemperatureFromDegreesCelsius c = fadd (fmul c Kelvin) (fmul (f64_const (27315 / 100)) Kelvin)
   \<and> TemperatureFromDegreesFahrenheit f
       = fadd (fmul f Rankine) (fmul (f64_const (45967 / 100)) Rankine)
   \<and> Rankine = fmul (f64_const (5 / 9)) Kelvin
   \<and> DegreesCelsius t = fdiv (fsub t (fmul (f64_const (27315 / 100)) Kelvin)) Kelvin
   \<and> DegreesFahrenheit t = fdiv (fsub t (fmul (f64_const (45967 / 100)) Rankine)) Rankine
   \<and> Temperature_Kelvin (fmul (f64_const 0) Kelvin) = f64_const 0
   \<and> DegreesCelsius (fmul (f64_const 0) Kelvin) = f64_const (- (27315 / 100))
   \<and> DegreesFahrenheit (fmul (f64_const 0) Kelvin) = f64_const (- (45967 / 100))
   \<and> DegreesRankine (fmul (f64_const 0) Kelvin) = f64_const 0
   \<and> TemperatureFromDegreesCelsius (f64_const (- (27315 / 100))) = fmul (f64_const 0) Kelvin
   \<and> TemperatureFromDegreesFahrenheit (f64_const (- (45967 / 100))) = fmul (f64_const 0) Kelvin"
proof -
  have 1: "TemperatureFromDegreesCelsius c
      = fadd (fmul c Kelvin) (fmul (f64_const (27315 / 100)) Kelvin)"
    by (simp only: TemperatureFromDegreesCelsius_def celsius0_def)
  have 2: "TemperatureFromDegreesFahrenheit f
      = fadd (fmul f Rankine) (fmul (f64_const (45967 / 100)) Rankine)"
    by (simp only: TemperatureFromDegreesFahrenheit_def fahrenheit0_def)
  have 3: "Rankine = fmul (f64_const (5 / 9)) Kelvin"
    by (simp only: Rankine_def)
  have 4: "DegreesCelsius t = fdiv (fsub t (fmul (f64_const (27315 / 100)) Kelvin)) Kelvin"
    by (simp only: DegreesCelsius_def celsius0_def)
  have 5: "DegreesFahrenheit t = fdiv (fsub t (fmul (f64_const (45967 / 100)) Rankine)) Rankine"
    by (simp only: DegreesFahrenheit_def fahrenheit0_def)
  have 6: "Temperature_Kelvin (fmul (f64_const 0) Kelvin) = f64_const 0"
    by (simp add: Temperature_Kelvin_def zero_kelvin zero_eq Kelvin_eq)
  have 7: "DegreesCelsius (fmul (f64_const 0) Kelvin) = f64_const (- (27315 / 100))"
    by (simp add: DegreesCelsius_def zero_kelvin celsius0_eq fsub_def sval_def Kelvin_eq
        f64_const_def fl_c0 fl_27315)
  have 8: "DegreesFahrenheit (fmul (f64_const 0) Kelvin) = f64_const (- (45967 / 100))"
    by (simp add: DegreesFahrenheit_def zero_kelvin fahrenheit0_eq fsub_def sval_def Rankine_eq
        Kelvin_eq f64_const_def fl_f0_self fl_f0_div fl_45967)
  have 9: "DegreesRankine (fmul (f64_const 0) Kelvin) = f64_const 0"
    by (simp add: DegreesRankine_def zero_kelvin zero_eq Rankine_eq Kelvin_eq)
  have 10: "TemperatureFromDegreesCelsius (f64_const (- (27315 / 100)))
      = fmul (f64_const 0) Kelvin"
    by (simp add: TemperatureFromDegreesCelsius_def zero_kelvin celsius0_eq sval_def Kelvin_eq
        f64_const_def fl_c0 fl_27315)
  have 11: "TemperatureFromDegreesFahrenheit (f64_const (- (45967 / 100)))
      = fmul (f64_const 0) Kelvin"
    by (simp add: TemperatureFromDegreesFahrenheit_def zero_kelvin fahrenheit0_eq sval_def
        Rankine_eq Kelvin_eq f64_const_def fl_f0 fl_45967)
  show ?thesis using 1 2 3 4 5 6 7 8 9 10 11 by (intro conjI)
qed

text \<open>
  C3. The thresholds of the bypass differ between Length and Area. A Length is formatted in
  meters with the verb \<^verbatim>\<open>%g\<close>, without the list of units, when \<open>|l| \<ge> 1000 * Kilometer\<close>,
  and through the list otherwise; the comparison is inclusive: exactly 1000 km is
  \<^verbatim>\<open>1e+06m\<close>. An Area is formatted in square meters with \<^verbatim>\<open>%g\<close> when
  \<open>|a| > 1000000 * SquareKilometer\<close>, and through the list otherwise; the comparison is
  strict: exactly 1000000 square kilometers is \<^verbatim>\<open>1e+06km^2\<close>.
\<close>

theorem C3_bypass_thresholds:
  "(fge (Abs l) (fmul (f64_const 1000) Kilometer)
      \<longrightarrow> format l = (fmt_g (fdiv l Meter), meterDesc))
   \<and> (\<not> fge (Abs l) (fmul (f64_const 1000) Kilometer)
      \<longrightarrow> format l = (case format_loop l unitThresholds of
                         Some r \<Rightarrow> r | None \<Rightarrow> (fmt_g (fdiv l Meter), meterDesc)))
   \<and> fge (Abs (fmul (f64_const 1000) Kilometer)) (fmul (f64_const 1000) Kilometer)
   \<and> format (fmul (f64_const 1000) Kilometer) = (''1e+06'', meterDesc)
   \<and> String (fmul (f64_const 1000) Kilometer) = ''1e+06m''
   \<and> (fgt (Area_Abs a) (fmul (f64_const 1000000) SquareKilometer)
      \<longrightarrow> Area_format a = (fmt_g (SquareMeters a), squareMeterDesc))
   \<and> (\<not> fgt (Area_Abs a) (fmul (f64_const 1000000) SquareKilometer)
      \<longrightarrow> Area_format a = (case Area_format_loop a areaUnitThresholds of
                              Some r \<Rightarrow> r | None \<Rightarrow> (fmt_g (SquareMeters a), squareMeterDesc)))
   \<and> \<not> fgt (Area_Abs (fmul (f64_const 1000000) SquareKilometer))
          (fmul (f64_const 1000000) SquareKilometer)
   \<and> Area_format (fmul (f64_const 1000000) SquareKilometer) = (''1e+06'', squareKmDesc)
   \<and> Area_String (fmul (f64_const 1000000) SquareKilometer) = ''1e+06km^2''"
proof -
  have k: "fmul (f64_const 1000) Kilometer = Fin False 1000000"
    using bypass_eq by (simp add: kmDesc_def)
  have a: "fmul (f64_const 1000000) SquareKilometer = Fin False 1000000000000"
    using area_bypass_eq by (simp add: squareKmDesc_def)
  have 1: "fge (Abs l) (fmul (f64_const 1000) Kilometer)
      \<longrightarrow> format l = (fmt_g (fdiv l Meter), meterDesc)"
    by (simp add: format_def kmDesc_def meterDesc_def)
  have 2: "\<not> fge (Abs l) (fmul (f64_const 1000) Kilometer)
      \<longrightarrow> format l = (case format_loop l unitThresholds of
                         Some r \<Rightarrow> r | None \<Rightarrow> (fmt_g (fdiv l Meter), meterDesc))"
    by (simp add: format_def kmDesc_def meterDesc_def split: option.splits)
  have 3: "fge (Abs (fmul (f64_const 1000) Kilometer)) (fmul (f64_const 1000) Kilometer)"
    by (simp add: k Abs_def zero_eq sval_def fge_def)
  have 4: "format (fmul (f64_const 1000) Kilometer) = (''1e+06'', meterDesc)"
    unfolding k by (rule format_1e6)
  have 5: "String (fmul (f64_const 1000) Kilometer) = ''1e+06m''"
    by (simp add: String_def 4 meterDesc_def)
  have 6: "fgt (Area_Abs a) (fmul (f64_const 1000000) SquareKilometer)
      \<longrightarrow> Area_format a = (fmt_g (SquareMeters a), squareMeterDesc)"
    by (simp add: Area_format_def squareKmDesc_def)
  have 7: "\<not> fgt (Area_Abs a) (fmul (f64_const 1000000) SquareKilometer)
      \<longrightarrow> Area_format a = (case Area_format_loop a areaUnitThresholds of
                              Some r \<Rightarrow> r | None \<Rightarrow> (fmt_g (SquareMeters a), squareMeterDesc))"
    by (simp add: Area_format_def squareKmDesc_def split: option.splits)
  have 8: "\<not> fgt (Area_Abs (fmul (f64_const 1000000) SquareKilometer))
          (fmul (f64_const 1000000) SquareKilometer)"
    by (simp add: a Area_Abs_def zero_eq sval_def fgt_def)
  have 9: "Area_format (fmul (f64_const 1000000) SquareKilometer) = (''1e+06'', squareKmDesc)"
    unfolding a by (rule Area_format_1e12)
  have 10: "Area_String (fmul (f64_const 1000000) SquareKilometer) = ''1e+06km^2''"
    by (simp add: Area_String_def 9 squareKmDesc_def)
  show ?thesis using 1 2 3 4 5 6 7 8 9 10 by (intro conjI)
qed

theorem C3_bypass_thresholds_witness:
  "fge (Abs (Fin False 1000000)) (fmul (f64_const 1000) Kilometer)
   \<and> format (Fin False 1000000) = (fmt_g (fdiv (Fin False 1000000) Meter), meterDesc)
   \<and> \<not> fge (Abs (Fin False (4494592428115755 / 4503599627370496))) (fmul (f64_const 1000) Kilometer)
   \<and> format (Fin False (4494592428115755 / 4503599627370496)) = (''99.8'', \<lparr>u_length = Centimeter, u_name = ''Centimeter'', u_symbol = ''cm''\<rparr>)
   \<and> fgt (Area_Abs (Fin False 2000000000000)) (fmul (f64_const 1000000) SquareKilometer)
   \<and> Area_format (Fin False 2000000000000) = (''2e+12'', squareMeterDesc)
   \<and> \<not> fgt (Area_Abs (Fin False 1000000000000)) (fmul (f64_const 1000000) SquareKilometer)
   \<and> Area_format (Fin False 1000000000000) = (''1e+06'', squareKmDesc)"
proof -
  have k: "fmul (f64_const 1000) Kilometer = Fin False 1000000"
    using bypass_eq by (simp add: kmDesc_def)
  have a: "fmul (f64_const 1000000) SquareKilometer = Fin False 1000000000000"
    using area_bypass_eq by (simp add: squareKmDesc_def)
  have h1: "fge (Abs (Fin False 1000000)) (fmul (f64_const 1000) Kilometer)"
    by (simp add: k Abs_def zero_eq sval_def fge_def)
  have h2: "\<not> fge (Abs (Fin False (4494592428115755 / 4503599627370496))) (fmul (f64_const 1000) Kilometer)"
    by (simp add: k Abs_def zero_eq sval_def fge_def)
  have h3: "fgt (Area_Abs (Fin False 2000000000000)) (fmul (f64_const 1000000) SquareKilometer)"
    by (simp add: a Area_Abs_def zero_eq sval_def fgt_def)
  have h4: "\<not> fgt (Area_Abs (Fin False 1000000000000))
      (fmul (f64_const 1000000) SquareKilometer)"
    by (simp add: a Area_Abs_def zero_eq sval_def fgt_def)
  show ?thesis
    using C3_bypass_thresholds[of "Fin False 1000000" "Fin False 2000000000000"]
      C3_bypass_thresholds[of "Fin False (4494592428115755 / 4503599627370496)" "Fin False 1000000000000"]
      h1 h2 h3 h4 format_998 Area_format_2e12 Area_format_1e12
    by simp
qed

text \<open>
  C9. \<^verbatim>\<open>l.PerTime(d)\<close> is \<^verbatim>\<open>Speed(l.Meters() / d.Seconds())\<close>. For a zero duration the
  divisor is the positive zero, and the result is NaN when \<open>l\<close> is a zero or NaN and the
  infinity with the sign of \<open>l\<close> otherwise. The operations are total functions with float64
  results; none has an error result.
\<close>

theorem C9_per_time:
  assumes "valid l"
  shows "PerTime l d = fdiv (Meters l) (Seconds d)
    \<and> Seconds 0 = Fin False 0
    \<and> PerTime l 0 = (case l of NaN \<Rightarrow> NaN | Inf s \<Rightarrow> Inf s
                       | Fin s q \<Rightarrow> if q = 0 then NaN else Inf s)
    \<and> PerTime l 0 \<in> {NaN, Inf False, Inf True}"
proof -
  have v: "valid (fdiv (Meters l) (Seconds d))" for d
    using assms by (simp add: Meters_def valid_fdiv valid_Seconds)
  have 1: "PerTime l d = fdiv (Meters l) (Seconds d)" for d
    by (simp add: PerTime_def MeterPerSecond_eq fmul_one_right[OF v])
  have 3: "PerTime l 0 = (case l of NaN \<Rightarrow> NaN | Inf s \<Rightarrow> Inf s
                       | Fin s q \<Rightarrow> if q = 0 then NaN else Inf s)"
    unfolding 1 by (cases l) (simp_all add: Meters_def Seconds_zero)
  have 4: "PerTime l 0 \<in> {NaN, Inf False, Inf True}"
    unfolding 3 by (cases l) auto
  show ?thesis using 1 Seconds_zero 3 4 by blast
qed

theorem C9_per_time_witness:
  "valid (Fin True 1) \<and> PerTime (Fin True 1) 0 = Inf True
   \<and> PerTime (Fin True 1) 0 = fdiv (Meters (Fin True 1)) (Seconds 0)"
  using C9_per_time[of "Fin True 1" 0] valid_one[of True]
  by (simp add: Meters_def)

text \<open>
  C5, as stated, fails where the multiplication overflows: \<open>2 ^ 1023\<close> is a finite float64,
  \<open>2 ^ 1023 * Kilometer\<close> is the positive infinity, and so is its value in kilometers. It
  also fails for the affine units near zero: \<open>2 ^ - 60\<close> degrees Celsius is the temperature
  \<open>273.15\<close> Kelvin exactly, which reads back as 0 degrees Celsius.
\<close>

theorem C5_round_trip_counterexample:
  "valid (Fin False (2 ^ 1023)) \<and> is_finite (Fin False (2 ^ 1023))
   \<and> (Kilometer, Kilometers) \<in> set length_units
   \<and> Kilometers (fmul (Fin False (2 ^ 1023)) Kilometer) = Inf False
   \<and> \<not> within_rel (1 / 10 ^ 15) (Kilometers (fmul (Fin False (2 ^ 1023)) Kilometer))
         (Fin False (2 ^ 1023))
   \<and> valid (Fin False (1 / 2 ^ 60))
   \<and> DegreesCelsius (TemperatureFromDegreesCelsius (Fin False (1 / 2 ^ 60))) = Fin False 0
   \<and> \<not> within_rel (1 / 10 ^ 13)
         (DegreesCelsius (TemperatureFromDegreesCelsius (Fin False (1 / 2 ^ 60))))
         (Fin False (1 / 2 ^ 60))"
proof -
  have "fmul (Fin False (2 ^ 1023)) (Fin False 1000) = Inf False"
    unfolding fmul.simps fl_big by simp
  hence 1: "Kilometers (fmul (Fin False (2 ^ 1023)) Kilometer) = Inf False"
    by (simp only: Kilometers_def Kilometer_eq fdiv.simps) simp
  have 2: "DegreesCelsius (TemperatureFromDegreesCelsius (Fin False (1 / 2 ^ 60))) = Fin False 0"
    using valid_tiny[of False]
    by (simp add: DegreesCelsius_def TemperatureFromDegreesCelsius_def Kelvin_eq celsius0_eq
        fl_valid sval_def fl_c0_tiny fsub_def)
  have 3: "(Kilometer, Kilometers) \<in> set length_units"
    by (simp add: length_units_def)
  show ?thesis
    unfolding 1 2 using 3 valid_big[of False] valid_tiny[of False]
    by (simp add: within_rel_def sval_def)
qed

text \<open>
  C5, amended. For every finite \<open>x\<close>: (1) for every unit \<open>U\<close> of Length, Area and Speed, and
  for Kelvin and Rankine, when \<open>x\<close> is zero, or \<open>|x|\<close> and \<open>|x| * U\<close> are at least the smallest
  normal float64 \<open>2 ^ - 1022\<close> (no underflow), and the result is finite (no overflow), the
  value \<open>x * U\<close> read back by the accessor of \<open>U\<close> is within the relative tolerance
  \<open>1e-15\<close> of \<open>x\<close>; (2) for degrees Celsius and degrees Fahrenheit, when \<open>|x| \<ge> 1\<close> and the
  result is finite, the temperature made from \<open>x\<close> and read back in the same unit is within
  the relative tolerance \<open>1e-13\<close> of \<open>x\<close>.
\<close>

theorem C5_round_trip:
  assumes "valid x" "is_finite x"
  shows "((U, acc) \<in> set (length_units @ area_units @ speed_units @ temperature_scale_units)
        \<and> (fval x = 0
           \<or> (2 powi (- 1022) \<le> \<bar>fval x\<bar> \<and> 2 powi (- 1022) \<le> \<bar>fval x\<bar> * fval U))
        \<and> is_finite (acc (fmul x U))
        \<longrightarrow> within_rel (1 / 10 ^ 15) (acc (fmul x U)) x)
    \<and> (1 \<le> \<bar>fval x\<bar> \<and> is_finite (DegreesCelsius (TemperatureFromDegreesCelsius x))
        \<longrightarrow> within_rel (1 / 10 ^ 13) (DegreesCelsius (TemperatureFromDegreesCelsius x)) x)
    \<and> (1 \<le> \<bar>fval x\<bar> \<and> is_finite (DegreesFahrenheit (TemperatureFromDegreesFahrenheit x))
        \<longrightarrow> within_rel (1 / 10 ^ 13)
              (DegreesFahrenheit (TemperatureFromDegreesFahrenheit x)) x)"
  using scale_round_trip[OF _ assms] celsius_round_trip[OF assms]
    fahrenheit_round_trip[OF assms]
  by blast

theorem C5_round_trip_witness:
  "(Foot, Feet) \<in> set (length_units @ area_units @ speed_units @ temperature_scale_units)
   \<and> valid (Fin False 7) \<and> is_finite (Fin False 7)
   \<and> 2 powi (- 1022) \<le> \<bar>fval (Fin False 7)\<bar>
   \<and> 2 powi (- 1022) \<le> \<bar>fval (Fin False 7)\<bar> * fval Foot
   \<and> Feet (fmul (Fin False 7) Foot) = Fin False (7881299347898367 / 1125899906842624)
   \<and> within_rel (1 / 10 ^ 15) (Feet (fmul (Fin False 7) Foot)) (Fin False 7)
   \<and> valid (Fin False 15) \<and> 1 \<le> \<bar>fval (Fin False 15)\<bar>
   \<and> DegreesCelsius (TemperatureFromDegreesCelsius (Fin False 15)) = Fin False (15)
   \<and> within_rel (1 / 10 ^ 13) (DegreesCelsius (TemperatureFromDegreesCelsius (Fin False 15)))
        (Fin False 15)
   \<and> valid (Fin False 59) \<and> 1 \<le> \<bar>fval (Fin False 59)\<bar>
   \<and> DegreesFahrenheit (TemperatureFromDegreesFahrenheit (Fin False 59)) = Fin False (8303511812964357 / 140737488355328)
   \<and> within_rel (1 / 10 ^ 13)
        (DegreesFahrenheit (TemperatureFromDegreesFahrenheit (Fin False 59))) (Fin False 59)"
proof -
  have 1: "(Foot, Feet) \<in> set (length_units @ area_units @ speed_units @ temperature_scale_units)"
    by (simp add: length_units_def)
  have 2: "Feet (fmul (Fin False 7) Foot) = Fin False (7881299347898367 / 1125899906842624)"
    by (simp add: Feet_def Foot_eq fl_7foot fl_7foot_back)
  have 3: "2 powi (- 1022) \<le> \<bar>fval (Fin False 7)\<bar>
      \<and> 2 powi (- 1022) \<le> \<bar>fval (Fin False 7)\<bar> * fval Foot"
    by (simp add: Foot_eq sval_def)
  have 4: "DegreesCelsius (TemperatureFromDegreesCelsius (Fin False 15)) = Fin False (15)"
    by (simp add: DegreesCelsius_def TemperatureFromDegreesCelsius_def Kelvin_eq celsius0_eq
        fsub_def sval_def fl_c15 fl_c15_back fl_valid[OF valid_15])
  have 5: "DegreesFahrenheit (TemperatureFromDegreesFahrenheit (Fin False 59))
      = Fin False (8303511812964357 / 140737488355328)"
    by (simp add: DegreesFahrenheit_def TemperatureFromDegreesFahrenheit_def Rankine_eq
        fahrenheit0_eq fsub_def sval_def fl_f59 fl_f59_t fl_f59_d fl_f59_r)
  have 6: "1 \<le> \<bar>fval (Fin False 15)\<bar>" "1 \<le> \<bar>fval (Fin False 59)\<bar>"
    by (simp_all add: sval_def)
  show ?thesis
    using C5_round_trip[OF valid_7[of False], of Foot Feet]
      C5_round_trip[OF valid_15[of False], of Foot Feet]
      C5_round_trip[OF valid_59[of False], of Foot Feet]
      1 2 3 4 5 6 valid_7[of False] valid_15[of False] valid_59[of False]
    by simp
qed

end
